theory Spec2Isabelle
  imports Main "HOL-Library.Word"
begin

unbundle bit_operations_syntax

section \<open>The streaming ZIP reader of ideviceinstaller.c\<close>

text \<open>
  A shallow embedding of the forward-only ZIP reader in \<^verbatim>\<open>src/ideviceinstaller.c\<close>
  (\<^verbatim>\<open>r_zip_open\<close> to \<^verbatim>\<open>r_get_app_directory\<close>, lines 140--664).

  \<^item> The archive is a \<^verbatim>\<open>FILE*\<close> on a regular file: its bytes and the current position.
    Reads never fail (\<^verbatim>\<open>ferror\<close> is never set), a read at or past the end delivers
    fewer bytes, and a seek may go past the end.
  \<^item> File offsets (\<^verbatim>\<open>int64_t\<close>, \<^verbatim>\<open>uint64_t\<close>) are \<open>int\<close>: every offset the code
    computes is bounded by the file size plus a 32-bit header field, far below \<open>2^63\<close>,
    so the 64-bit arithmetic does not wrap. The one subtraction that does wrap,
    \<^verbatim>\<open>read_size - 3\<close> on a 64-bit \<^verbatim>\<open>size_t\<close>, is written out modulo \<open>2^64\<close>.
  \<^item> Header fields are machine words of their declared width, read little-endian
    (the code copies them from the file with \<^verbatim>\<open>memcpy\<close>/\<^verbatim>\<open>fread\<close> into packed structs
    on a little-endian host).
  \<^item> \<^verbatim>\<open>malloc\<close>, \<^verbatim>\<open>realloc\<close> and \<^verbatim>\<open>inflateInit2\<close> succeed.
  \<^item> A function of the code returns \<open>None\<close> when it does not return (a loop that runs
    forever), \<open>Some UB\<close> when it reads or writes outside the bytes it owns (undefined
    behaviour in C), and \<open>Some (Ret v)\<close> when it returns \<open>v\<close>. Functions that always
    return and stay inside their bytes have plain results.
\<close>

subsection \<open>Constants\<close>

type_synonym byte = "8 word"

definition LOCAL_HEADER_SIGNATURE :: "32 word" where
  "LOCAL_HEADER_SIGNATURE = 0x04034b50"

definition CENTRAL_HEADER_SIGNATURE :: "32 word" where
  "CENTRAL_HEADER_SIGNATURE = 0x02014b50"

definition END_OF_CENTRAL_DIRECTORY_SIGNATURE :: "32 word" where
  "END_OF_CENTRAL_DIRECTORY_SIGNATURE = 0x06054b50"

definition CENTRAL_HEADER_DIGITAL_SIGNATURE :: "32 word" where
  "CENTRAL_HEADER_DIGITAL_SIGNATURE = 0x05054b50"

definition ARCHIVE_EXTRA_DATA_SIGNATURE :: "32 word" where
  "ARCHIVE_EXTRA_DATA_SIGNATURE = 0x07064b50"

definition ZIP64_CENTRAL_FILE_HEADER_SIGNATURE :: "32 word" where
  "ZIP64_CENTRAL_FILE_HEADER_SIGNATURE = 0x06064b50"

definition BUFFER_SIZE :: nat where
  "BUFFER_SIZE = 4096"

definition COMPRESSION_STORE :: "16 word" where
  "COMPRESSION_STORE = 0"

definition COMPRESSION_DEFLATE :: "16 word" where
  "COMPRESSION_DEFLATE = 8"

definition FLAG_DATA_DESCRIPTOR :: "16 word" where
  "FLAG_DATA_DESCRIPTOR = 0x08"

definition SIZE_MAX_plus_1 :: nat where
  "SIZE_MAX_plus_1 = 18446744073709551616"

subsection \<open>The archive stream\<close>

record FILE =
  content :: "byte list"
  pos :: nat

definition ftelli64 :: "FILE \<Rightarrow> int" where
  "ftelli64 f = int (pos f)"

text \<open>\<^verbatim>\<open>_fseeki64(fp, off, SEEK_SET)\<close>: a negative offset is refused and the position stays.\<close>

definition fseeki64_set :: "FILE \<Rightarrow> int \<Rightarrow> FILE" where
  "fseeki64_set f off = (if off < 0 then f else f\<lparr>pos := nat off\<rparr>)"

definition fseeki64_cur :: "FILE \<Rightarrow> int \<Rightarrow> FILE" where
  "fseeki64_cur f off = fseeki64_set f (int (pos f) + off)"

text \<open>\<^verbatim>\<open>fread(buf, 1, n, fp)\<close>: the bytes delivered (at most \<open>n\<close>, fewer at the end of the
  file) and the stream advanced past them.\<close>

definition fread :: "FILE \<Rightarrow> nat \<Rightarrow> byte list \<times> FILE" where
  "fread f n = (let bs = take n (drop (pos f) (content f)) in (bs, f\<lparr>pos := pos f + length bs\<rparr>))"

subsection \<open>Little-endian fields\<close>

definition le16 :: "byte \<Rightarrow> byte \<Rightarrow> 16 word" where
  "le16 b0 b1 = ucast b0 OR push_bit 8 (ucast b1)"

definition le32 :: "byte \<Rightarrow> byte \<Rightarrow> byte \<Rightarrow> byte \<Rightarrow> 32 word" where
  "le32 b0 b1 b2 b3 =
     ucast b0 OR push_bit 8 (ucast b1) OR push_bit 16 (ucast b2) OR push_bit 24 (ucast b3)"

definition le16_at :: "byte list \<Rightarrow> nat \<Rightarrow> 16 word" where
  "le16_at bs i = le16 (bs ! i) (bs ! (i + 1))"

definition le32_at :: "byte list \<Rightarrow> nat \<Rightarrow> 32 word" where
  "le32_at bs i = le32 (bs ! i) (bs ! (i + 1)) (bs ! (i + 2)) (bs ! (i + 3))"

subsection \<open>Parser state\<close>

record ZipParser =
  fp :: FILE
  filename :: "byte list"
  comp_size :: "64 word"
  uncomp_size :: "64 word"
  compression :: "16 word"
  name_length :: "16 word"
  extra_length :: "16 word"
  flags :: "16 word"
  data_start :: int
  header_start :: int
  consumed :: bool

datatype 'a outcome = UB | Ret 'a

text \<open>\<^verbatim>\<open>r_zip_open\<close> on a file that opens: \<^verbatim>\<open>calloc\<close> zeroes the state, then the two
  offsets are set to \<open>-1\<close>.\<close>

definition r_zip_open :: "byte list \<Rightarrow> ZipParser" where
  "r_zip_open bytes =
     \<lparr>fp = \<lparr>content = bytes, pos = 0\<rparr>, filename = replicate 256 0,
      comp_size = 0, uncomp_size = 0, compression = 0, name_length = 0,
      extra_length = 0, flags = 0, data_start = - 1, header_start = - 1,
      consumed = False\<rparr>"

subsection \<open>\<^verbatim>\<open>r_zip_skip_until_next_entry\<close>\<close>

datatype chunk_scan = Found nat | Terminal | Exhausted | OutOfRange

definition is_terminal_signature :: "32 word \<Rightarrow> bool" where
  "is_terminal_signature s \<longleftrightarrow>
     s = CENTRAL_HEADER_SIGNATURE \<or> s = END_OF_CENTRAL_DIRECTORY_SIGNATURE \<or>
     s = CENTRAL_HEADER_DIGITAL_SIGNATURE \<or> s = ARCHIVE_EXTRA_DATA_SIGNATURE \<or>
     s = ZIP64_CENTRAL_FILE_HEADER_SIGNATURE"

text \<open>
  The \<^verbatim>\<open>for\<close> loop over one chunk (lines 213--231), from index \<open>i\<close>, with the loop
  bound \<^verbatim>\<open>read_size - 3\<close> as the code computed it. \<open>buffer\<close> holds the \<^verbatim>\<open>read_size\<close>
  bytes that \<^verbatim>\<open>fread\<close> delivered. A \<^verbatim>\<open>memcpy\<close> of four bytes at \<^verbatim>\<open>buffer + i\<close> that
  needs bytes beyond them is \<open>OutOfRange\<close>: it can only happen on the first read of a
  call (a later read follows a three-byte rewind and delivers at least three bytes, so
  the bound does not wrap), when the rest of the local array was never written.
\<close>

function scan_chunk :: "byte list \<Rightarrow> nat \<Rightarrow> nat \<Rightarrow> chunk_scan" where
  "scan_chunk buffer bound i =
     (if i < bound then
        (if length buffer < i + 4 then OutOfRange
         else if le32_at buffer i = LOCAL_HEADER_SIGNATURE then Found i
         else if is_terminal_signature (le32_at buffer i) then Terminal
         else scan_chunk buffer bound (i + 1))
      else Exhausted)"
  by pat_completeness auto
termination
  by (relation "measure (\<lambda>(buffer, bound, i). bound - i)") auto

declare scan_chunk.simps [simp del]

text \<open>The \<^verbatim>\<open>while (1)\<close> loop (lines 203--235). The result pairs the \<^verbatim>\<open>int\<close> returned with
  the parser state left behind.\<close>

partial_function (option) r_zip_skip_until_next_entry ::
  "ZipParser \<Rightarrow> (int \<times> ZipParser) outcome option" where
  "r_zip_skip_until_next_entry zp =
     (let start = ftelli64 (fp zp);
          rd = fread (fp zp) BUFFER_SIZE;
          read_size = length (fst rd)
      in if read_size = 0 then Some (Ret (0, zp\<lparr>fp := snd rd\<rparr>))
         else
           (case scan_chunk (fst rd) ((read_size + SIZE_MAX_plus_1 - 3) mod SIZE_MAX_plus_1) 0 of
              Found i \<Rightarrow> Some (Ret (1, zp\<lparr>fp := snd rd, header_start := start + int i\<rparr>))
            | Terminal \<Rightarrow> Some (Ret (0, zp\<lparr>fp := snd rd\<rparr>))
            | OutOfRange \<Rightarrow> Some UB
            | Exhausted \<Rightarrow>
                r_zip_skip_until_next_entry
                  (zp\<lparr>fp := fseeki64_set (snd rd) (start + int read_size - 3)\<rparr>)))"

subsection \<open>zlib and the AFC writer, as parameters\<close>

text \<open>
  zlib is not part of the repository. The code uses it through \<^verbatim>\<open>inflateInit2\<close> and
  \<^verbatim>\<open>inflate(&strm, Z_NO_FLUSH)\<close>; the model takes both as a parameter. \<open>inflate z st
  next_in avail_out\<close> is one call on the internal state \<open>st\<close> with the input bytes
  \<open>next_in\<close> (\<^verbatim>\<open>avail_in\<close> is their number) and room for \<open>avail_out\<close> bytes of output; it
  gives the return code, the new state, the input left unread and the bytes produced.
\<close>

record 'z zlib =
  inflateInit2 :: 'z
  inflate :: "'z \<Rightarrow> byte list \<Rightarrow> nat \<Rightarrow> int \<times> 'z \<times> byte list \<times> byte list"

definition Z_OK :: int where
  "Z_OK = 0"

definition Z_STREAM_END :: int where
  "Z_STREAM_END = 1"

definition Z_STREAM_ERROR :: int where
  "Z_STREAM_ERROR = - 2"

definition Z_DATA_ERROR :: int where
  "Z_DATA_ERROR = - 3"

definition Z_BUF_ERROR :: int where
  "Z_BUF_ERROR = - 5"

text \<open>\<^verbatim>\<open>afc_file_write\<close> of libimobiledevice, on the state \<open>'s\<close> of the remote file: the
  status, the number of bytes it reports written and the new state.\<close>

type_synonym 's afc_writer = "'s \<Rightarrow> byte list \<Rightarrow> int \<times> nat \<times> 's"

definition AFC_E_SUCCESS :: int where
  "AFC_E_SUCCESS = 0"

subsection \<open>\<^verbatim>\<open>r_reset_entry\<close> and \<^verbatim>\<open>r_close_entry\<close>\<close>

definition r_reset_entry :: "ZipParser \<Rightarrow> ZipParser" where
  "r_reset_entry zp =
     zp\<lparr>filename := replicate 256 0, comp_size := 0, uncomp_size := 0, compression := 0,
        name_length := 0, extra_length := 0, flags := 0, data_start := 0,
        header_start := 0, consumed := False\<rparr>"

text \<open>The inner \<^verbatim>\<open>do ... while (strm.avail_out == 0)\<close> of \<^verbatim>\<open>r_close_entry\<close> (lines
  278--285): the output is discarded.\<close>

partial_function (option) close_inflate_inner ::
  "'z zlib \<Rightarrow> 'z \<Rightarrow> byte list \<Rightarrow> (int \<times> 'z \<times> byte list) option" where
  "close_inflate_inner z st next_in =
     (case inflate z st next_in BUFFER_SIZE of
        (ret, st', next_in', out) \<Rightarrow>
          if ret = Z_STREAM_ERROR then Some (ret, st', next_in')
          else if BUFFER_SIZE - length out = 0 then close_inflate_inner z st' next_in'
          else Some (ret, st', next_in'))"

text \<open>The outer \<^verbatim>\<open>do ... while (ret != Z_STREAM_END)\<close> (lines 272--289), giving the stream
  and \<^verbatim>\<open>total_in_size\<close> at its exit.\<close>

partial_function (option) close_inflate ::
  "'z zlib \<Rightarrow> FILE \<Rightarrow> 'z \<Rightarrow> int \<Rightarrow> (FILE \<times> int) option" where
  "close_inflate z f st total_in_size =
     (let rd = fread f BUFFER_SIZE;
          read_int_size = int (length (fst rd))
      in case close_inflate_inner z st (fst rd) of
           None \<Rightarrow> None
         | Some (ret, st', next_in') \<Rightarrow>
             let total = total_in_size + (read_int_size - int (length next_in'))
             in if ret \<noteq> Z_STREAM_END then close_inflate z (snd rd) st' total
                else Some (snd rd, total))"

definition r_close_entry :: "'z zlib \<Rightarrow> ZipParser \<Rightarrow> ZipParser option" where
  "r_close_entry z zp =
     (if compression zp = COMPRESSION_DEFLATE then
        (case close_inflate z (fseeki64_set (fp zp) (data_start zp)) (inflateInit2 z) 0 of
           None \<Rightarrow> None
         | Some (f, total_in_size) \<Rightarrow>
             Some (r_reset_entry (zp\<lparr>fp := fseeki64_set f (data_start zp + total_in_size)\<rparr>)))
      else if compression zp = COMPRESSION_STORE then
        Some (r_reset_entry
          (zp\<lparr>fp := fseeki64_set (fp zp) (data_start zp + uint (comp_size zp))\<rparr>))
      else Some (r_reset_entry zp))"

subsection \<open>\<^verbatim>\<open>r_zip_get_next_entry\<close>\<close>

record LocalFileHeader =
  lfh_signature :: "32 word"
  lfh_version :: "16 word"
  lfh_flags :: "16 word"
  lfh_compression :: "16 word"
  lfh_mod_time :: "16 word"
  lfh_mod_date :: "16 word"
  lfh_crc32 :: "32 word"
  lfh_compressed_size :: "32 word"
  lfh_uncompressed_size :: "32 word"
  lfh_name_length :: "16 word"
  lfh_extra_length :: "16 word"

text \<open>The thirty bytes read into the packed \<^verbatim>\<open>LocalFileHeader\<close>.\<close>

definition read_lfh :: "byte list \<Rightarrow> LocalFileHeader" where
  "read_lfh bs =
     \<lparr>lfh_signature = le32_at bs 0, lfh_version = le16_at bs 4, lfh_flags = le16_at bs 6,
      lfh_compression = le16_at bs 8, lfh_mod_time = le16_at bs 10,
      lfh_mod_date = le16_at bs 12, lfh_crc32 = le32_at bs 14,
      lfh_compressed_size = le32_at bs 18, lfh_uncompressed_size = le32_at bs 22,
      lfh_name_length = le16_at bs 26, lfh_extra_length = le16_at bs 28\<rparr>"

text \<open>
  Lines 315--355: read the header at \<^verbatim>\<open>header_start\<close>. \<^verbatim>\<open>filename\<close> is the array of 256
  bytes; \<^verbatim>\<open>fread\<close> overwrites its first bytes and the terminator is stored at index
  \<^verbatim>\<open>name_length\<close>, which lies outside the array from 256 on (\<open>UB\<close>).
\<close>

definition read_local_header :: "ZipParser \<Rightarrow> (int \<times> ZipParser) outcome" where
  "read_local_header zp1 =
     (let rh = fread (fseeki64_set (fp zp1) (header_start zp1)) 30 in
      if length (fst rh) \<noteq> 30 then Ret (0, zp1\<lparr>fp := snd rh\<rparr>)
      else
        let lfh = read_lfh (fst rh) in
        if lfh_signature lfh \<noteq> LOCAL_HEADER_SIGNATURE then Ret (0, zp1\<lparr>fp := snd rh\<rparr>)
        else
          let rn = fread (snd rh) (unat (lfh_name_length lfh)) in
          if 256 \<le> unat (lfh_name_length lfh) then UB
          else
            let f = fseeki64_cur (snd rn) (uint (lfh_extra_length lfh));
                zp2 = zp1\<lparr>fp := f,
                  filename := (fst rn @ drop (length (fst rn)) (filename zp1))
                                [unat (lfh_name_length lfh) := 0],
                  compression := lfh_compression lfh,
                  flags := lfh_flags lfh,
                  name_length := lfh_name_length lfh,
                  extra_length := lfh_extra_length lfh,
                  data_start := ftelli64 f\<rparr>;
                zp3 = (if flags zp2 AND FLAG_DATA_DESCRIPTOR \<noteq> 0 \<and>
                          lfh_compressed_size lfh = 0
                       then zp2\<lparr>comp_size := 0\<rparr>
                       else zp2\<lparr>comp_size := ucast (lfh_compressed_size lfh),
                                uncomp_size := ucast (lfh_uncompressed_size lfh)\<rparr>)
            in if compression zp3 = COMPRESSION_STORE \<and> flags zp3 = FLAG_DATA_DESCRIPTOR
               then Ret (0, zp3)
               else Ret (1, zp3))"

text \<open>Lines 311--355: scan for the next header, then read it.\<close>

definition read_entry :: "ZipParser \<Rightarrow> (int \<times> ZipParser) outcome option" where
  "read_entry zp =
     (case r_zip_skip_until_next_entry zp of
        None \<Rightarrow> None
      | Some UB \<Rightarrow> Some UB
      | Some (Ret (found, zp1)) \<Rightarrow>
          if found = 0 then Some (Ret (0, zp1)) else Some (read_local_header zp1))"

text \<open>Lines 306--310, then the rest of the function.\<close>

definition r_zip_get_next_entry ::
  "'z zlib \<Rightarrow> ZipParser \<Rightarrow> (int \<times> ZipParser) outcome option" where
  "r_zip_get_next_entry z zp =
     (if consumed zp = False \<and> header_start zp \<noteq> - 1 then
        (case r_close_entry z zp of None \<Rightarrow> None | Some zp' \<Rightarrow> read_entry zp')
      else read_entry zp)"

subsection \<open>\<^verbatim>\<open>r_extract_current\<close>\<close>

text \<open>The store loop (lines 382--403) from \<^verbatim>\<open>total_written\<close>: \<open>Inl\<close> is the early
  \<^verbatim>\<open>return 0\<close>, \<open>Inr\<close> the exit of the loop.\<close>

function store_copy ::
  "'s afc_writer \<Rightarrow> nat \<Rightarrow> nat \<Rightarrow> FILE \<Rightarrow> 's \<Rightarrow> (FILE \<times> 's) + (FILE \<times> 's)" where
  "store_copy afc_file_write csize total_written f af =
     (if total_written < csize then
        (let to_read = (if csize - total_written < 4096 then csize - total_written else 4096);
             rd = fread f to_read;
             bytes_read = length (fst rd)
         in if bytes_read \<noteq> to_read then Inl (snd rd, af)
            else
              (case afc_file_write af (fst rd) of
                 (status, bytes_written, af') \<Rightarrow>
                   if status \<noteq> AFC_E_SUCCESS then Inl (snd rd, af')
                   else if bytes_written \<noteq> bytes_read then Inl (snd rd, af')
                   else store_copy afc_file_write csize (total_written + bytes_written)
                          (snd rd) af'))
      else Inr (f, af))"
  by pat_completeness auto
termination
  by (relation "measure (\<lambda>(w, csize, total_written, f, af). csize - total_written)")
     (auto split: if_splits)

declare store_copy.simps [simp del]

text \<open>The inner loop of the deflate branch (lines 431--447): each piece of output goes
  to the writer.\<close>

partial_function (option) extract_inflate_inner ::
  "'z zlib \<Rightarrow> 's afc_writer \<Rightarrow> 'z \<Rightarrow> byte list \<Rightarrow> 's \<Rightarrow>
     ('s + (int \<times> 'z \<times> byte list \<times> 's)) option" where
  "extract_inflate_inner z afc_file_write st next_in af =
     (case inflate z st next_in 4096 of
        (ret, st', next_in', out) \<Rightarrow>
          if ret = Z_STREAM_ERROR then Some (Inr (ret, st', next_in', af))
          else
            (case afc_file_write af out of
               (status, written, af') \<Rightarrow>
                 if status \<noteq> AFC_E_SUCCESS then Some (Inl af')
                 else if written \<noteq> length out then Some (Inl af')
                 else if 4096 - length out = 0
                   then extract_inflate_inner z afc_file_write st' next_in' af'
                 else Some (Inr (ret, st', next_in', af'))))"

partial_function (option) extract_inflate ::
  "'z zlib \<Rightarrow> 's afc_writer \<Rightarrow> FILE \<Rightarrow> 'z \<Rightarrow> int \<Rightarrow> 's \<Rightarrow>
     ((FILE \<times> 's) + (FILE \<times> int \<times> 's)) option" where
  "extract_inflate z afc_file_write f st total_in_size af =
     (let rd = fread f 4096;
          read_int_size = int (length (fst rd))
      in case extract_inflate_inner z afc_file_write st (fst rd) af of
           None \<Rightarrow> None
         | Some (Inl af') \<Rightarrow> Some (Inl (snd rd, af'))
         | Some (Inr (ret, st', next_in', af')) \<Rightarrow>
             let total = total_in_size + (read_int_size - int (length next_in'))
             in if ret \<noteq> Z_STREAM_END
                then extract_inflate z afc_file_write (snd rd) st' total af'
                else Some (Inr (snd rd, total, af')))"

definition r_extract_current ::
  "'z zlib \<Rightarrow> 's afc_writer \<Rightarrow> ZipParser \<Rightarrow> 's \<Rightarrow> (int \<times> ZipParser \<times> 's) option" where
  "r_extract_current z afc_file_write zp af =
     (let f0 = fseeki64_set (fp zp) (data_start zp) in
      if compression zp = COMPRESSION_STORE then
        (case store_copy afc_file_write (unat (comp_size zp)) 0 f0 af of
           Inl (f, af') \<Rightarrow> Some (0, zp\<lparr>fp := f\<rparr>, af')
         | Inr (f, af') \<Rightarrow> Some (1, zp\<lparr>fp := f, consumed := True\<rparr>, af'))
      else if compression zp = COMPRESSION_DEFLATE then
        (case extract_inflate z afc_file_write f0 (inflateInit2 z) 0 af of
           None \<Rightarrow> None
         | Some (Inl (f, af')) \<Rightarrow> Some (0, zp\<lparr>fp := f\<rparr>, af')
         | Some (Inr (f, total_in_size, af')) \<Rightarrow>
             Some (1, zp\<lparr>fp := fseeki64_set f (data_start zp + total_in_size),
                         consumed := True\<rparr>, af'))
      else Some (0, zp\<lparr>fp := f0\<rparr>, af))"

subsection \<open>\<^verbatim>\<open>r_extract_to_buffer\<close>\<close>

text \<open>
  What the call leaves: the \<^verbatim>\<open>int\<close> returned, \<^verbatim>\<open>*buffer\<close> (\<open>None\<close> is \<^verbatim>\<open>NULL\<close>),
  \<^verbatim>\<open>*len\<close>, the parser, and --- not a value of the code, kept to state how much memory
  it asked for --- the largest size it passed to \<^verbatim>\<open>malloc\<close>/\<^verbatim>\<open>realloc\<close>. The call is
  modelled as \<^verbatim>\<open>r_get_content\<close> makes it: \<^verbatim>\<open>buffer\<close> is not \<^verbatim>\<open>NULL\<close> and \<^verbatim>\<open>*buffer\<close> is
  \<^verbatim>\<open>NULL\<close> on entry. In the store branch the buffer has \<^verbatim>\<open>comp_size\<close> bytes; the model
  keeps the bytes that \<^verbatim>\<open>fread\<close> stored in it. The allocator is that of glibc:
  \<^verbatim>\<open>malloc(0)\<close> gives a block, and the closing \<^verbatim>\<open>realloc(*buffer, total_size)\<close> of the
  deflate branch frees the block and gives \<^verbatim>\<open>NULL\<close> when \<^verbatim>\<open>total_size\<close> is 0.
\<close>

record extract_result =
  er_result :: int
  er_buffer :: "byte list option"
  er_len :: nat
  er_zp :: ZipParser
  er_alloc :: nat

text \<open>The inner loop of the deflate branch (lines 522--546) on \<^verbatim>\<open>*buffer\<close>,
  \<^verbatim>\<open>total_size\<close> and \<^verbatim>\<open>alloc_size\<close>; \<open>Inl\<close> is the \<^verbatim>\<open>return 0\<close> on \<^verbatim>\<open>Z_STREAM_ERROR\<close>.\<close>

partial_function (option) buffer_inflate_inner ::
  "'z zlib \<Rightarrow> 'z \<Rightarrow> byte list \<Rightarrow> byte list \<Rightarrow> nat \<Rightarrow>
     (nat + (int \<times> 'z \<times> byte list \<times> nat)) option" where
  "buffer_inflate_inner z st next_in buf alloc_size =
     (case inflate z st next_in 4096 of
        (ret, st', next_in', out) \<Rightarrow>
          if ret = Z_STREAM_ERROR then Some (Inl alloc_size)
          else
            let alloc_size' =
                  (if length buf + length out > alloc_size then alloc_size * 2
                   else alloc_size);
                buf' = buf @ out
            in if 4096 - length out = 0
               then buffer_inflate_inner z st' next_in' buf' alloc_size'
               else Some (Inr (ret, st', buf', alloc_size')))"

partial_function (option) buffer_inflate ::
  "'z zlib \<Rightarrow> FILE \<Rightarrow> 'z \<Rightarrow> byte list \<Rightarrow> nat \<Rightarrow>
     ((FILE \<times> nat) + (FILE \<times> byte list \<times> nat)) option" where
  "buffer_inflate z f st buf alloc_size =
     (let rd = fread f 4096
      in case buffer_inflate_inner z st (fst rd) buf alloc_size of
           None \<Rightarrow> None
         | Some (Inl a) \<Rightarrow> Some (Inl (snd rd, a))
         | Some (Inr (ret, st', buf', alloc_size')) \<Rightarrow>
             if ret \<noteq> Z_STREAM_END then buffer_inflate z (snd rd) st' buf' alloc_size'
             else Some (Inr (snd rd, buf', alloc_size')))"

definition r_extract_to_buffer :: "'z zlib \<Rightarrow> ZipParser \<Rightarrow> extract_result option" where
  "r_extract_to_buffer z zp =
     (let f0 = fseeki64_set (fp zp) (data_start zp) in
      if compression zp = COMPRESSION_STORE then
        (let rd = fread f0 (unat (comp_size zp))
         in Some \<lparr>er_result = 1, er_buffer = Some (fst rd), er_len = unat (comp_size zp),
                  er_zp = zp\<lparr>fp := snd rd, consumed := True\<rparr>,
                  er_alloc = unat (comp_size zp)\<rparr>)
      else if compression zp = COMPRESSION_DEFLATE then
        (case buffer_inflate z f0 (inflateInit2 z) [] 4096 of
           None \<Rightarrow> None
         | Some (Inl (f, a)) \<Rightarrow>
             Some \<lparr>er_result = 0, er_buffer = None, er_len = 0, er_zp = zp\<lparr>fp := f\<rparr>,
                   er_alloc = a\<rparr>
         | Some (Inr (f, buf, a)) \<Rightarrow>
             Some \<lparr>er_result = 1, er_buffer = (if buf = [] then None else Some buf),
                   er_len = length buf,
                   er_zp = zp\<lparr>fp := f, consumed := True\<rparr>, er_alloc = a\<rparr>)
      else Some \<lparr>er_result = 0, er_buffer = None, er_len = 0, er_zp = zp\<lparr>fp := f0\<rparr>,
                 er_alloc = 0\<rparr>)"

subsection \<open>C strings\<close>

text \<open>A \<^verbatim>\<open>char*\<close> is the bytes of its array; the string it denotes ends before the first
  zero byte.\<close>

definition c_str :: "byte list \<Rightarrow> byte list" where
  "c_str s = takeWhile (\<lambda>b. b \<noteq> 0) s"

definition strlen :: "byte list \<Rightarrow> nat" where
  "strlen s = length (c_str s)"

text \<open>\<^verbatim>\<open>strncmp\<close>: the code only asks whether the result is zero.\<close>

definition strncmp :: "byte list \<Rightarrow> byte list \<Rightarrow> nat \<Rightarrow> int" where
  "strncmp a b n = (if take n (c_str a) = take n (c_str b) then 0 else 1)"

definition bytes_of :: "string \<Rightarrow> byte list" where
  "bytes_of s = map of_char s"

subsection \<open>\<^verbatim>\<open>r_get_content\<close>\<close>

text \<open>What the call leaves: the \<^verbatim>\<open>int\<close> returned, \<^verbatim>\<open>*buffer\<close>, \<^verbatim>\<open>*len\<close>, the parser, and
  the largest allocation \<^verbatim>\<open>r_extract_to_buffer\<close> made (0 when it was not called).\<close>

record content_result =
  cr_ret :: int
  cr_buffer :: "byte list option"
  cr_len :: "32 word"
  cr_zp :: ZipParser
  cr_alloc :: nat

text \<open>The \<^verbatim>\<open>while\<close> loop of lines 575--599 with what follows it (lines 601--605).\<close>

partial_function (option) r_get_content_loop ::
  "'z zlib \<Rightarrow> ZipParser \<Rightarrow> byte list \<Rightarrow> content_result outcome option" where
  "r_get_content_loop z zp file_name =
     (case r_zip_get_next_entry z zp of
        None \<Rightarrow> None
      | Some UB \<Rightarrow> Some UB
      | Some (Ret (got, zp1)) \<Rightarrow>
          if got = 0 then
            Some (Ret \<lparr>cr_ret = 0, cr_buffer = None, cr_len = 0, cr_zp = r_reset_entry zp1,
                       cr_alloc = 0\<rparr>)
          else if strncmp (filename zp1) file_name (strlen file_name) = 0 then
            (if uncomp_size zp1 \<noteq> 0 then
               (if uncomp_size zp1 > 10485760 then
                  Some (Ret \<lparr>cr_ret = - 1, cr_buffer = None, cr_len = 0,
                             cr_zp = r_reset_entry zp1, cr_alloc = 0\<rparr>)
                else
                  (case r_extract_to_buffer z zp1 of
                     None \<Rightarrow> None
                   | Some e \<Rightarrow>
                       Some (Ret \<lparr>cr_ret = 0, cr_buffer = er_buffer e,
                                  cr_len = word_of_nat (er_len e),
                                  cr_zp = r_reset_entry (er_zp e), cr_alloc = er_alloc e\<rparr>)))
             else
               (case r_extract_to_buffer z zp1 of
                  None \<Rightarrow> None
                | Some e \<Rightarrow>
                    if er_len e > 10485760 then
                      Some (Ret \<lparr>cr_ret = - 1, cr_buffer = er_buffer e, cr_len = 0,
                                 cr_zp = r_reset_entry (er_zp e), cr_alloc = er_alloc e\<rparr>)
                    else
                      Some (Ret \<lparr>cr_ret = 0, cr_buffer = er_buffer e,
                                 cr_len = word_of_nat (er_len e),
                                 cr_zp = r_reset_entry (er_zp e), cr_alloc = er_alloc e\<rparr>)))
          else r_get_content_loop z zp1 file_name)"

definition r_get_content :: "'z zlib \<Rightarrow> ZipParser \<Rightarrow> byte list \<Rightarrow> content_result outcome option" where
  "r_get_content z zp file_name = r_get_content_loop z (r_reset_entry zp) file_name"

subsection \<open>\<^verbatim>\<open>r_get_app_directory\<close>\<close>

text \<open>
  Lines 623--628: \<^verbatim>\<open>p\<close> walks from \<^verbatim>\<open>name + 8\<close> to the first \<^verbatim>\<open>'/'\<close>. The loop
  condition \<^verbatim>\<open>p++ != NULL\<close> never fails, so the walk does not stop at the terminating
  zero; it goes on through the rest of the array and leaves it (\<open>None\<close>) when the
  array holds no \<^verbatim>\<open>'/'\<close> from index 8 on.
\<close>

function find_slash :: "byte list \<Rightarrow> nat \<Rightarrow> nat option" where
  "find_slash name p =
     (if length name \<le> p then None
      else if name ! p = 0x2F then Some p
      else find_slash name (p + 1))"
  by pat_completeness auto
termination
  by (relation "measure (\<lambda>(name, p). length name - p)") auto

declare find_slash.simps [simp del]

text \<open>The \<^verbatim>\<open>while\<close> loop of lines 611--657 with the test after it; \<open>path\<close> is \<^verbatim>\<open>*path\<close>
  (\<open>None\<close> is \<^verbatim>\<open>NULL\<close>).\<close>

partial_function (option) r_get_app_directory ::
  "'z zlib \<Rightarrow> ZipParser \<Rightarrow> byte list option \<Rightarrow>
     (int \<times> byte list option \<times> ZipParser) outcome option" where
  "r_get_app_directory z zp path =
     (case r_zip_get_next_entry z zp of
        None \<Rightarrow> None
      | Some UB \<Rightarrow> Some UB
      | Some (Ret (got, zp1)) \<Rightarrow>
          if got = 0 then Some (Ret (if path = None then - 1 else 0, path, zp1))
          else
            let name = filename zp1 in
            if strncmp name (bytes_of ''Payload/'') 8 = 0 \<and> strlen name > 8 then
              (if name ! 8 = 0x2E then r_get_app_directory z zp1 path
               else
                 (case find_slash name 8 of
                    None \<Rightarrow> Some UB
                  | Some p \<Rightarrow>
                      let len = p + 1 in
                      if len < 12 \<or> strncmp (drop (p - 4) name) (bytes_of ''.app'') 4 \<noteq> 0
                      then r_get_app_directory z zp1 path
                      else Some (Ret (0, Some (c_str (take len name)), zp1))))
            else r_get_app_directory z zp1 path)"

subsection \<open>Predicates used to state the properties\<close>

definition is_signature :: "32 word \<Rightarrow> bool" where
  "is_signature s \<longleftrightarrow> s = LOCAL_HEADER_SIGNATURE \<or> is_terminal_signature s"

text \<open>
  What the properties of the deflate branches assume of zlib: \<^verbatim>\<open>inflate\<close> does not answer
  \<^verbatim>\<open>Z_STREAM_ERROR\<close> (zlib gives it for an inconsistent stream structure only, which
  these calls never pass) and produces no more than \<^verbatim>\<open>avail_out\<close> bytes.
\<close>

definition inflater_ok :: "'z zlib \<Rightarrow> bool" where
  "inflater_ok z \<longleftrightarrow>
     (\<forall>st next_in avail_out.
        fst (inflate z st next_in avail_out) \<noteq> Z_STREAM_ERROR \<and>
        length (snd (snd (snd (inflate z st next_in avail_out)))) \<le> avail_out)"

text \<open>A local-file-header signature starts at offset \<open>k\<close> of the bytes \<open>c\<close>.\<close>

definition header_at :: "byte list \<Rightarrow> nat \<Rightarrow> bool" where
  "header_at c k \<longleftrightarrow> k + 4 \<le> length c \<and> le32_at c k = LOCAL_HEADER_SIGNATURE"

text \<open>The parser as \<^verbatim>\<open>r_close_entry\<close> leaves it when it has moved the stream to the
  offset \<open>k\<close>: the entry state reset, the stream at \<open>k\<close>.\<close>

definition closed_at :: "ZipParser \<Rightarrow> int \<Rightarrow> ZipParser" where
  "closed_at zp k = r_reset_entry (zp\<lparr>fp := (fp zp)\<lparr>pos := nat k\<rparr>\<rparr>)"

subsection \<open>A reference inflater and writer for concrete runs\<close>

text \<open>
  To run the code on concrete archives the parameters need values. \<open>stored_zlib\<close>
  inflates raw DEFLATE streams made of stored blocks (RFC 1951, 3.2.4: a header byte
  with BFINAL in bit 0 and BTYPE = 00 in bits 1--2, then LEN and its complement NLEN,
  two bytes each, then LEN literal bytes), with the calling convention of zlib:
  it stops when the input is used up or the output room is full, and answers
  \<^verbatim>\<open>Z_STREAM_END\<close> once the final block is complete. Compressed blocks are outside it
  (\<^verbatim>\<open>Z_DATA_ERROR\<close>). \<open>afc_append\<close> is a writer that accepts every byte.
\<close>

datatype stored_state = SHead | SLen bool "byte list" | SCopy bool nat | SDone | SBad

fun stored_run ::
  "stored_state \<Rightarrow> byte list \<Rightarrow> nat \<Rightarrow> byte list \<Rightarrow> stored_state \<times> byte list \<times> byte list" where
  "stored_run SDone inp room out = (SDone, inp, out)"
| "stored_run SBad inp room out = (SBad, inp, out)"
| "stored_run st [] room out = (st, [], out)"
| "stored_run SHead (b # bs) room out =
     (if b AND 6 = 0 then stored_run (SLen (b AND 1 \<noteq> 0) []) bs room out
      else (SBad, bs, out))"
| "stored_run (SLen fin hs) (b # bs) room out =
     (if length hs < 3 then stored_run (SLen fin (hs @ [b])) bs room out
      else if le16 (hs ! 0) (hs ! 1) \<noteq> NOT (le16 (hs ! 2) b) then (SBad, bs, out)
      else if le16 (hs ! 0) (hs ! 1) = 0
        then (if fin then (SDone, bs, out) else stored_run SHead bs room out)
      else stored_run (SCopy fin (unat (le16 (hs ! 0) (hs ! 1)))) bs room out)"
| "stored_run (SCopy fin n) (b # bs) room out =
     (if room = 0 then (SCopy fin n, b # bs, out)
      else if n = 1
        then (if fin then (SDone, bs, out @ [b])
              else stored_run SHead bs (room - 1) (out @ [b]))
      else stored_run (SCopy fin (n - 1)) bs (room - 1) (out @ [b]))"

definition stored_inflate ::
  "stored_state \<Rightarrow> byte list \<Rightarrow> nat \<Rightarrow> int \<times> stored_state \<times> byte list \<times> byte list" where
  "stored_inflate st next_in avail_out =
     (case stored_run st next_in avail_out [] of
        (st', next_in', out) \<Rightarrow>
          (if st' = SDone then Z_STREAM_END
           else if st' = SBad then Z_DATA_ERROR
           else if length next_in' = length next_in \<and> out = [] then Z_BUF_ERROR
           else Z_OK,
           st', next_in', out))"

definition stored_zlib :: "stored_state zlib" where
  "stored_zlib = \<lparr>inflateInit2 = SHead, inflate = stored_inflate\<rparr>"

definition afc_append :: "byte list afc_writer" where
  "afc_append af bs = (AFC_E_SUCCESS, length bs, af @ bs)"

text \<open>
  \<open>expanding_zlib n\<close> stands for zlib on a compressed stream that decodes to \<open>n\<close> bytes
  \<open>0x41\<close> (DEFLATE reaches ratios above 1000 to 1, so ten megabytes of output need some
  ten kilobytes of input). Its state is the number of bytes still to produce; each call
  uses up the input offered, fills the output room and answers \<^verbatim>\<open>Z_STREAM_END\<close> with the
  last byte.
\<close>

definition expanding_inflate ::
  "nat \<Rightarrow> byte list \<Rightarrow> nat \<Rightarrow> int \<times> nat \<times> byte list \<times> byte list" where
  "expanding_inflate st next_in avail_out =
     (if st \<le> avail_out then (Z_STREAM_END, 0, [], replicate st 0x41)
      else (Z_OK, st - avail_out, [], replicate avail_out 0x41))"

definition expanding_zlib :: "nat \<Rightarrow> nat zlib" where
  "expanding_zlib n = \<lparr>inflateInit2 = n, inflate = expanding_inflate\<rparr>"

subsection \<open>Archives used as concrete inputs\<close>

text \<open>Four zero bytes short of a chunk boundary, then a local-header signature: its
  bytes lie at offsets 4094 to 4097 and straddle the first 4096-byte chunk.\<close>

definition straddling_stream :: "byte list" where
  "straddling_stream = replicate 4094 0 @ [0x50, 0x4B, 0x03, 0x04]"

text \<open>
  The other archives are built from local file headers. \<open>local_header\<close> lists the
  thirty bytes in file order; the fields that vary are given as their little-endian
  bytes: flags, compression method, compressed size, uncompressed size, name length.
  The version is 20, time, date, CRC and the extra length are zero.
\<close>

definition local_header ::
  "byte list \<Rightarrow> byte list \<Rightarrow> byte list \<Rightarrow> byte list \<Rightarrow> byte list \<Rightarrow> byte list" where
  "local_header fl method csize usize nlen =
     [0x50, 0x4B, 0x03, 0x04, 0x14, 0x00] @ fl @ method @ [0, 0, 0, 0, 0, 0, 0, 0] @
     csize @ usize @ nlen @ [0, 0]"

definition central_directory :: "byte list" where
  "central_directory = [0x50, 0x4B, 0x01, 0x02]"

text \<open>A raw DEFLATE stream of one final stored block holding the byte \<open>0x41\<close>: six bytes.\<close>

definition stored_A :: "byte list" where
  "stored_A = [0x01, 0x01, 0x00, 0xFE, 0xFF, 0x41]"

text \<open>A store entry \<open>a\<close> with flags \<open>0x0808\<close> (data descriptor and UTF-8 names) and sizes
  deferred; the same with flags \<open>0x0008\<close>.\<close>

definition store_descriptor_utf8_archive :: "byte list" where
  "store_descriptor_utf8_archive =
     local_header [0x08, 0x08] [0, 0] [0, 0, 0, 0] [0, 0, 0, 0] [1, 0] @ bytes_of ''a'' @
     bytes_of ''hi'' @ central_directory"

definition store_descriptor_archive :: "byte list" where
  "store_descriptor_archive =
     local_header [0x08, 0x00] [0, 0] [0, 0, 0, 0] [0, 0, 0, 0] [1, 0] @ bytes_of ''a'' @
     bytes_of ''hi'' @ central_directory"

text \<open>Headers that declare a name of 300 and of 256 bytes.\<close>

definition long_name_archive :: "byte list" where
  "long_name_archive =
     local_header [0, 0] [0, 0] [0, 0, 0, 0] [0, 0, 0, 0] [0x2C, 0x01] @ bytes_of ''aaaa''"

definition name_256_archive :: "byte list" where
  "name_256_archive =
     local_header [0, 0] [0, 0] [0, 0, 0, 0] [0, 0, 0, 0] [0x00, 0x01] @ bytes_of ''aaaa''"

text \<open>A store entry \<open>a\<close> of five bytes, then a deflate entry \<open>b\<close> with the data-descriptor
  flag and both sizes zero in its header.\<close>

definition descriptor_after_store_archive :: "byte list" where
  "descriptor_after_store_archive =
     local_header [0, 0] [0, 0] [5, 0, 0, 0] [5, 0, 0, 0] [1, 0] @ bytes_of ''a'' @
     bytes_of ''hello'' @
     local_header [0x08, 0x00] [8, 0] [0, 0, 0, 0] [0, 0, 0, 0] [1, 0] @ bytes_of ''b'' @
     stored_A @ central_directory"

text \<open>A deflate entry \<open>a\<close> (payload at offset 31, six bytes), then a store entry \<open>b\<close>.\<close>

definition deflate_then_store_archive :: "byte list" where
  "deflate_then_store_archive =
     local_header [0, 0] [8, 0] [6, 0, 0, 0] [1, 0, 0, 0] [1, 0] @ bytes_of ''a'' @
     stored_A @
     local_header [0, 0] [0, 0] [1, 0, 0, 0] [1, 0, 0, 0] [1, 0] @ bytes_of ''b'' @
     bytes_of ''x'' @ central_directory"

text \<open>A store entry \<open>x\<close> whose header declares the uncompressed size 0 and the compressed
  size 10485761 (\<open>0x00A00001\<close>), with a payload of that many bytes; a deflate entry \<open>x\<close> that declares the uncompressed size
  10485761; a deflate entry \<open>x\<close> with both sizes deferred.\<close>

definition huge_store_archive :: "byte list" where
  "huge_store_archive =
     local_header [0, 0] [0, 0] [0x01, 0x00, 0xA0, 0x00] [0, 0, 0, 0] [1, 0] @ bytes_of ''x'' @
     replicate 10485761 0x41"

definition declared_too_large_archive :: "byte list" where
  "declared_too_large_archive =
     local_header [0, 0] [8, 0] [6, 0, 0, 0] [0x01, 0x00, 0xA0, 0x00] [1, 0] @ bytes_of ''x'' @
     stored_A @ central_directory"

definition unknown_size_archive :: "byte list" where
  "unknown_size_archive =
     local_header [0x08, 0x00] [8, 0] [0, 0, 0, 0] [0, 0, 0, 0] [1, 0] @ bytes_of ''x'' @
     stored_A @ central_directory"

text \<open>The bytes of a local header with the name \<open>f\<close>, used as a payload; and a store entry
  \<open>a\<close> with that 31-byte payload (offsets 31 to 61), followed at offset 62 by the entry
  \<open>b\<close>.\<close>

definition header_like_payload :: "byte list" where
  "header_like_payload =
     local_header [0, 0] [0, 0] [0, 0, 0, 0] [0, 0, 0, 0] [1, 0] @ bytes_of ''f''"

definition store_entry_archive :: "byte list" where
  "store_entry_archive =
     local_header [0, 0] [0, 0] [31, 0, 0, 0] [31, 0, 0, 0] [1, 0] @ bytes_of ''a'' @
     header_like_payload @
     local_header [0, 0] [0, 0] [1, 0, 0, 0] [1, 0, 0, 0] [1, 0] @ bytes_of ''b'' @
     bytes_of ''x'' @ central_directory"

text \<open>A store entry \<open>a\<close> with flags \<open>0x0808\<close> and both sizes deferred, whose 31-byte payload
  (offsets 31 to 61) is the header-like bytes, followed at offset 62 by the entry \<open>b\<close>.\<close>

definition deferred_store_archive :: "byte list" where
  "deferred_store_archive =
     local_header [0x08, 0x08] [0, 0] [0, 0, 0, 0] [0, 0, 0, 0] [1, 0] @ bytes_of ''a'' @
     header_like_payload @
     local_header [0, 0] [0, 0] [1, 0, 0, 0] [1, 0, 0, 0] [1, 0] @ bytes_of ''b'' @
     bytes_of ''x'' @ central_directory"

text \<open>Three store entries: \<open>a\<close> of five bytes (header at 0, payload at 31), \<open>b\<close> whose
  31-byte payload is the header-like bytes (header at 36, payload at 67 to 97), and \<open>c\<close>
  (header at 98).\<close>

definition three_entries_archive :: "byte list" where
  "three_entries_archive =
     local_header [0, 0] [0, 0] [5, 0, 0, 0] [5, 0, 0, 0] [1, 0] @ bytes_of ''a'' @
     bytes_of ''hello'' @
     local_header [0, 0] [0, 0] [31, 0, 0, 0] [31, 0, 0, 0] [1, 0] @ bytes_of ''b'' @
     header_like_payload @
     local_header [0, 0] [0, 0] [1, 0, 0, 0] [1, 0, 0, 0] [1, 0] @ bytes_of ''c'' @
     bytes_of ''x'' @ central_directory"

text \<open>Empty store entries with the names of the example of the specification, and an
  archive whose first entry is a file directly under \<open>Payload/\<close>.\<close>

definition empty_entry :: "string \<Rightarrow> byte list" where
  "empty_entry name =
     local_header [0, 0] [0, 0] [0, 0, 0, 0] [0, 0, 0, 0] [of_nat (length name), 0] @
     bytes_of name"

definition app_example_archive :: "byte list" where
  "app_example_archive =
     empty_entry ''Payload/.hidden/foo'' @ empty_entry ''Payload/Foo.app/bin'' @
     empty_entry ''Payload/Bar.app/bin'' @ central_directory"

definition payload_file_archive :: "byte list" where
  "payload_file_archive =
     empty_entry ''Payload/readme'' @ empty_entry ''Payload/Foo.app/bin'' @
     central_directory"

text \<open>Two store entries, \<open>a\<close> holding the byte 1 and \<open>b\<close> holding the byte 2.\<close>

definition two_store_entries_archive :: "byte list" where
  "two_store_entries_archive =
     local_header [0, 0] [0, 0] [1, 0, 0, 0] [1, 0, 0, 0] [1, 0] @ bytes_of ''a'' @ [1] @
     local_header [0, 0] [0, 0] [1, 0, 0, 0] [1, 0, 0, 0] [1, 0] @ bytes_of ''b'' @ [2] @
     central_directory"

section \<open>Properties\<close>

subsection \<open>Unfolding the definitions on concrete inputs\<close>

lemmas sig_defs = LOCAL_HEADER_SIGNATURE_def CENTRAL_HEADER_SIGNATURE_def
  END_OF_CENTRAL_DIRECTORY_SIGNATURE_def CENTRAL_HEADER_DIGITAL_SIGNATURE_def
  ARCHIVE_EXTRA_DATA_SIGNATURE_def ZIP64_CENTRAL_FILE_HEADER_SIGNATURE_def
  is_terminal_signature_def

lemmas io_defs = fread_def fseeki64_set_def fseeki64_cur_def ftelli64_def Let_def
  BUFFER_SIZE_def SIZE_MAX_plus_1_def le32_at_def le32_def le16_at_def le16_def read_lfh_def

lemmas archive_defs = local_header_def bytes_of_def central_directory_def stored_A_def
  header_like_payload_def empty_entry_def

lemmas next_entry_defs = r_zip_get_next_entry_def read_entry_def read_local_header_def
  r_zip_open_def r_zip_skip_until_next_entry.simps scan_chunk.simps r_close_entry_def
  r_reset_entry_def COMPRESSION_STORE_def COMPRESSION_DEFLATE_def FLAG_DATA_DESCRIPTOR_def

lemmas zlib_defs = stored_zlib_def stored_inflate_def Z_OK_def Z_STREAM_END_def
  Z_STREAM_ERROR_def Z_DATA_ERROR_def Z_BUF_ERROR_def afc_append_def AFC_E_SUCCESS_def

lemmas string_defs = c_str_def strlen_def strncmp_def bytes_of_def

lemma replicate_update_same: "(replicate n x)[i := x] = replicate n x"
  by (induction n arbitrary: i) (auto split: nat.splits)

lemma find_slash_none: "0x2F \<notin> set (drop p name) \<Longrightarrow> find_slash name p = None"
proof (induction name p rule: find_slash.induct)
  case (1 name p)
  show ?case
  proof (cases "length name \<le> p")
    case True
    then show ?thesis by (subst find_slash.simps) simp
  next
    case False
    then have d: "drop p name = name ! p # drop (p + 1) name"
      by (simp add: Cons_nth_drop_Suc)
    have a: "name ! p \<noteq> 0x2F" and b: "0x2F \<notin> set (drop (p + 1) name)"
      using 1(2) unfolding d by auto
    have "find_slash name (p + 1) = None" using 1(1) False a b by simp
    then show ?thesis using False a by (subst find_slash.simps) simp
  qed
qed

subsection \<open>The scan over one chunk\<close>

lemma scan_chunk_exhausted:
  "bound + 3 \<le> length buffer \<Longrightarrow>
   (\<And>j. i \<le> j \<Longrightarrow> j < bound \<Longrightarrow> \<not> is_signature (le32_at buffer j)) \<Longrightarrow>
   scan_chunk buffer bound i = Exhausted"
proof (induction buffer bound i rule: scan_chunk.induct)
  case (1 buffer bound i)
  show ?case
  proof (cases "i < bound")
    case True
    have ns: "\<not> is_signature (le32_at buffer i)" using 1(3) [of i] True by simp
    have rec: "scan_chunk buffer bound (i + 1) = Exhausted"
      using 1(1) True ns 1(2) 1(3) by (simp add: is_signature_def)
    show ?thesis using True ns 1(2) rec
      by (subst scan_chunk.simps) (simp add: is_signature_def)
  next
    case False
    then show ?thesis by (subst scan_chunk.simps) simp
  qed
qed

lemma scan_chunk_found:
  "bound + 3 \<le> length buffer \<Longrightarrow> i \<le> k \<Longrightarrow> k < bound \<Longrightarrow>
   le32_at buffer k = LOCAL_HEADER_SIGNATURE \<Longrightarrow>
   (\<And>j. i \<le> j \<Longrightarrow> j < k \<Longrightarrow> \<not> is_signature (le32_at buffer j)) \<Longrightarrow>
   scan_chunk buffer bound i = Found k"
proof (induction buffer bound i rule: scan_chunk.induct)
  case (1 buffer bound i)
  show ?case
  proof (cases "i = k")
    case True
    then show ?thesis using 1(2,4,5) by (subst scan_chunk.simps) simp
  next
    case False
    then have lt: "i < k" using 1(3) by simp
    have ns: "\<not> is_signature (le32_at buffer i)" using 1(6) [of i] lt by simp
    have rec: "scan_chunk buffer bound (i + 1) = Found k"
      using 1(1) lt ns 1(2,4,5,6) by (simp add: is_signature_def)
    show ?thesis using lt ns 1(2,4) rec
      by (subst scan_chunk.simps) (simp add: is_signature_def)
  qed
qed

lemma le32_at_chunk:
  "j + 4 \<le> n \<Longrightarrow> p + j + 4 \<le> length c \<Longrightarrow>
   le32_at (take n (drop p c)) j = le32_at c (p + j)"
  by (simp add: le32_at_def add.assoc)

lemma bound_no_wrap:
  assumes "3 \<le> n" "n \<le> 4096"
  shows "(n + SIZE_MAX_plus_1 - 3) mod SIZE_MAX_plus_1 = n - 3"
proof -
  obtain m where m: "n = m + 3" using assms(1) by (metis le_add_diff_inverse2)
  have "m < SIZE_MAX_plus_1" using assms(2) m by (simp add: SIZE_MAX_plus_1_def)
  then have "(m + SIZE_MAX_plus_1) mod SIZE_MAX_plus_1 = m" by simp
  moreover have "m + 3 + SIZE_MAX_plus_1 - 3 = m + SIZE_MAX_plus_1" by simp
  ultimately show ?thesis unfolding m by (simp only: add_diff_cancel_right')
qed

lemma skip_step_found:
  assumes "fread (fp zp) BUFFER_SIZE = (buf, f)" "3 \<le> length buf" "length buf \<le> 4096"
    "scan_chunk buf (length buf - 3) 0 = Found i"
  shows "r_zip_skip_until_next_entry zp =
    Some (Ret (1, zp\<lparr>fp := f, header_start := int (pos (fp zp)) + int i\<rparr>))"
proof -
  have ne: "length buf \<noteq> 0" using assms(2) by auto
  show ?thesis
    apply (subst r_zip_skip_until_next_entry.simps)
    apply (simp only: Let_def assms(1) fst_conv snd_conv bound_no_wrap [OF assms(2,3)] assms(4) ne if_False)
    apply (simp add: ftelli64_def)
    done
qed

lemma skip_step_exhausted:
  assumes "fread (fp zp) BUFFER_SIZE = (buf, f)" "3 \<le> length buf" "length buf \<le> 4096"
    "scan_chunk buf (length buf - 3) 0 = Exhausted"
  shows "r_zip_skip_until_next_entry zp =
    r_zip_skip_until_next_entry (zp\<lparr>fp := fseeki64_set f (int (pos (fp zp)) + int (length buf) - 3)\<rparr>)"
proof -
  have ne: "length buf \<noteq> 0" using assms(2) by auto
  show ?thesis
    apply (subst r_zip_skip_until_next_entry.simps)
    apply (simp only: Let_def assms(1) fst_conv snd_conv bound_no_wrap [OF assms(2,3)] assms(4) ne if_False)
    apply (simp add: ftelli64_def)
    done
qed

lemma skip_finds:
  "pos (fp zp) \<le> k \<Longrightarrow> k + 4 \<le> length (content (fp zp)) \<Longrightarrow>
   le32_at (content (fp zp)) k = LOCAL_HEADER_SIGNATURE \<Longrightarrow>
   (\<And>j. pos (fp zp) \<le> j \<Longrightarrow> j < k \<Longrightarrow> \<not> is_signature (le32_at (content (fp zp)) j)) \<Longrightarrow>
   \<exists>f. content f = content (fp zp) \<and>
       r_zip_skip_until_next_entry zp = Some (Ret (1, zp\<lparr>fp := f, header_start := int k\<rparr>))"
proof (induction "k - pos (fp zp)" arbitrary: zp rule: less_induct)
  case less
  define c where "c = content (fp zp)"
  define p where "p = pos (fp zp)"
  define buf where "buf = take BUFFER_SIZE (drop p c)"
  define n where "n = length buf"
  have pk: "p \<le> k" and kc: "k + 4 \<le> length c"
    using less.prems(1,2) by (simp_all add: c_def p_def)
  have n_eq: "n = min BUFFER_SIZE (length c - p)" by (simp add: n_def buf_def)
  have n4: "4 \<le> n" using pk kc by (simp add: n_eq BUFFER_SIZE_def)
  have n3: "3 \<le> n" using n4 by simp
  have nB: "n \<le> 4096" by (simp add: n_eq BUFFER_SIZE_def)
  have rd: "fread (fp zp) BUFFER_SIZE = (buf, (fp zp)\<lparr>pos := p + n\<rparr>)"
    by (simp add: fread_def Let_def c_def p_def n_def buf_def)
  have inchunk: "le32_at buf j = le32_at c (p + j)" if "j < n - 3" for j
  proof -
    have "j + 4 \<le> BUFFER_SIZE" using that nB by (simp add: BUFFER_SIZE_def)
    moreover have "p + j + 4 \<le> length c" using that n4 by (simp add: n_eq)
    ultimately show ?thesis unfolding buf_def by (rule le32_at_chunk)
  qed
  show ?case
  proof (cases "k - p < n - 3")
    case True
    have "scan_chunk buf (n - 3) 0 = Found (k - p)"
    proof (rule scan_chunk_found)
      show "n - 3 + 3 \<le> length buf" using n4 by (simp add: n_def)
      show "0 \<le> k - p" by simp
      show "k - p < n - 3" by (rule True)
      show "le32_at buf (k - p) = LOCAL_HEADER_SIGNATURE"
        using inchunk [OF True] pk less.prems(3) by (simp add: c_def)
      show "\<not> is_signature (le32_at buf j)" if "0 \<le> j" "j < k - p" for j
      proof -
        have "j < n - 3" using that True by simp
        then have "le32_at buf j = le32_at c (p + j)" by (rule inchunk)
        moreover have "\<not> is_signature (le32_at c (p + j))"
          using less.prems(4) [of "p + j"] that by (simp add: c_def p_def)
        ultimately show ?thesis by simp
      qed
    qed
    then have "r_zip_skip_until_next_entry zp =
        Some (Ret (1, zp\<lparr>fp := (fp zp)\<lparr>pos := p + n\<rparr>, header_start := int (pos (fp zp)) + int (k - p)\<rparr>))"
      using rd n3 nB \<open>scan_chunk buf (n - 3) 0 = Found (k - p)\<close>
      by (intro skip_step_found [where buf = buf]) (simp_all add: n_def)
    then show ?thesis using pk
      by (intro exI [of _ "(fp zp)\<lparr>pos := p + n\<rparr>"]) (simp add: p_def)
  next
    case False
    have nfull: "n = 4096"
    proof (rule ccontr)
      assume "n \<noteq> 4096"
      then have "n = length c - p" using n_eq nB by (simp add: BUFFER_SIZE_def)
      then show False using False kc pk n4 by simp
    qed
    have ex: "scan_chunk buf (n - 3) 0 = Exhausted"
    proof (rule scan_chunk_exhausted)
      show "n - 3 + 3 \<le> length buf" using n4 by (simp add: n_def)
      show "\<not> is_signature (le32_at buf j)" if "0 \<le> j" "j < n - 3" for j
      proof -
        have "le32_at buf j = le32_at c (p + j)" using that(2) by (rule inchunk)
        moreover have "\<not> is_signature (le32_at c (p + j))"
          using less.prems(4) [of "p + j"] that False by (simp add: c_def p_def)
        ultimately show ?thesis by simp
      qed
    qed
    define zp' where "zp' = zp\<lparr>fp := fseeki64_set ((fp zp)\<lparr>pos := p + n\<rparr>) (int (pos (fp zp)) + int n - 3)\<rparr>"
    have fp': "fp zp' = (fp zp)\<lparr>pos := p + 4093\<rparr>"
      by (simp add: zp'_def fseeki64_set_def nfull nat_add_distrib p_def)
    have step: "r_zip_skip_until_next_entry zp = r_zip_skip_until_next_entry zp'"
      unfolding zp'_def using rd n3 nB ex
      by (intro skip_step_exhausted [where buf = buf, unfolded n_def [symmetric]]) (simp_all add: n_def)
    have k': "p + 4093 \<le> k" using False nfull by simp
    have "\<exists>f. content f = content (fp zp') \<and>
       r_zip_skip_until_next_entry zp' = Some (Ret (1, zp'\<lparr>fp := f, header_start := int k\<rparr>))"
    proof (rule less.hyps)
      show "k - pos (fp zp') < k - pos (fp zp)" using k' pk by (simp add: fp' p_def [symmetric])
      show "pos (fp zp') \<le> k" using k' by (simp add: fp')
      show "k + 4 \<le> length (content (fp zp'))" using kc by (simp add: fp' c_def)
      show "le32_at (content (fp zp')) k = LOCAL_HEADER_SIGNATURE"
        using less.prems(3) by (simp add: fp')
      show "\<not> is_signature (le32_at (content (fp zp')) j)" if "pos (fp zp') \<le> j" "j < k" for j
        using less.prems(4) [of j] that by (simp add: fp' p_def)
    qed
    then obtain f where f: "content f = content (fp zp')"
      "r_zip_skip_until_next_entry zp' = Some (Ret (1, zp'\<lparr>fp := f, header_start := int k\<rparr>))"
      by blast
    have "zp'\<lparr>fp := f, header_start := int k\<rparr> = zp\<lparr>fp := f, header_start := int k\<rparr>"
      by (simp add: zp'_def)
    moreover have "content (fp zp') = content (fp zp)" by (simp add: fp')
    ultimately show ?thesis using f step by auto
  qed
qed

lemma skip_three_never_returns:
  assumes "length (content (fp zp)) = pos (fp zp) + 3"
  shows "r_zip_skip_until_next_entry zp = None"
proof -
  have "length (content (fp zp)) \<noteq> pos (fp zp) + 3"
    if "r_zip_skip_until_next_entry zp = Some r" for zp r
  proof (rule r_zip_skip_until_next_entry.raw_induct [OF _ that], goal_cases)
    case (1 skip zp r)
    show ?case
    proof
      assume three: "length (content (fp zp)) = pos (fp zp) + 3"
      define zp' where "zp' = zp\<lparr>fp := fseeki64_set ((fp zp)\<lparr>pos := pos (fp zp) + 3\<rparr>) (int (pos (fp zp)) + 3 - 3)\<rparr>"
      have rd: "fread (fp zp) BUFFER_SIZE =
        (drop (pos (fp zp)) (content (fp zp)), (fp zp)\<lparr>pos := pos (fp zp) + 3\<rparr>)"
        using three by (simp add: fread_def Let_def BUFFER_SIZE_def)
      have len: "length (drop (pos (fp zp)) (content (fp zp))) = 3" using three by simp
      have ex: "scan_chunk buf 0 0 = Exhausted" for buf
        by (subst scan_chunk.simps) simp
      have "skip zp' = Some r"
        using 1(2) unfolding rd Let_def fst_conv snd_conv len zp'_def
        by (simp add: ftelli64_def SIZE_MAX_plus_1_def ex)
      then have "length (content (fp zp')) \<noteq> pos (fp zp') + 3"
        by (rule 1(1))
      then show False using three by (simp add: fseeki64_set_def zp'_def)
    qed
  qed
  then show ?thesis using assms by (cases "r_zip_skip_until_next_entry zp") auto
qed

subsection \<open>C6: a header signature is found wherever it starts\<close>

text \<open>
  Claim C6. Whatever the offset \<open>k\<close> at which a local-file-header signature starts, at or
  after the position of the stream, if no local or terminal signature starts at an
  earlier offset from that position on, then \<^verbatim>\<open>r_zip_skip_until_next_entry\<close> returns 1
  with \<^verbatim>\<open>header_start\<close> set to \<open>k\<close>. The offset is arbitrary: a signature whose four
  bytes straddle a 4096-byte chunk boundary is found through the three-byte rewind.
\<close>

theorem scan_finds_first_local_header:
  assumes "pos (fp zp) \<le> k" and "k + 4 \<le> length (content (fp zp))"
    and "le32_at (content (fp zp)) k = LOCAL_HEADER_SIGNATURE"
    and "\<forall>j. pos (fp zp) \<le> j \<and> j < k \<longrightarrow> \<not> is_signature (le32_at (content (fp zp)) j)"
  shows "\<exists>f. r_zip_skip_until_next_entry zp =
           Some (Ret (1, zp\<lparr>fp := f, header_start := int k\<rparr>))"
proof -
  have "\<exists>f. content f = content (fp zp) \<and>
       r_zip_skip_until_next_entry zp = Some (Ret (1, zp\<lparr>fp := f, header_start := int k\<rparr>))"
    using assms by (intro skip_finds) auto
  then show ?thesis by blast
qed

lemma straddling_no_signature:
  assumes "j < 4094"
  shows "\<not> is_signature (le32_at straddling_stream j)"
proof -
  consider "j + 3 < 4094" | "j = 4091" | "j = 4092" | "j = 4093" using assms by linarith
  then show ?thesis
  proof cases
    case 1
    then have "le32_at straddling_stream j = 0"
      by (simp add: le32_at_def straddling_stream_def nth_append le32_def)
    then show ?thesis
      by (simp add: is_signature_def is_terminal_signature_def LOCAL_HEADER_SIGNATURE_def
          CENTRAL_HEADER_SIGNATURE_def END_OF_CENTRAL_DIRECTORY_SIGNATURE_def
          CENTRAL_HEADER_DIGITAL_SIGNATURE_def ARCHIVE_EXTRA_DATA_SIGNATURE_def
          ZIP64_CENTRAL_FILE_HEADER_SIGNATURE_def)
  next
    case 2
    then show ?thesis
      by (simp add: le32_at_def straddling_stream_def nth_append le32_def
          is_signature_def is_terminal_signature_def LOCAL_HEADER_SIGNATURE_def
          CENTRAL_HEADER_SIGNATURE_def END_OF_CENTRAL_DIRECTORY_SIGNATURE_def
          CENTRAL_HEADER_DIGITAL_SIGNATURE_def ARCHIVE_EXTRA_DATA_SIGNATURE_def
          ZIP64_CENTRAL_FILE_HEADER_SIGNATURE_def)
  next
    case 3
    then show ?thesis
      by (simp add: le32_at_def straddling_stream_def nth_append le32_def
          is_signature_def is_terminal_signature_def LOCAL_HEADER_SIGNATURE_def
          CENTRAL_HEADER_SIGNATURE_def END_OF_CENTRAL_DIRECTORY_SIGNATURE_def
          CENTRAL_HEADER_DIGITAL_SIGNATURE_def ARCHIVE_EXTRA_DATA_SIGNATURE_def
          ZIP64_CENTRAL_FILE_HEADER_SIGNATURE_def)
  next
    case 4
    then show ?thesis
      by (simp add: le32_at_def straddling_stream_def nth_append le32_def
          is_signature_def is_terminal_signature_def LOCAL_HEADER_SIGNATURE_def
          CENTRAL_HEADER_SIGNATURE_def END_OF_CENTRAL_DIRECTORY_SIGNATURE_def
          CENTRAL_HEADER_DIGITAL_SIGNATURE_def ARCHIVE_EXTRA_DATA_SIGNATURE_def
          ZIP64_CENTRAL_FILE_HEADER_SIGNATURE_def)
  qed
qed

text \<open>The theorem at a signature that starts at offset 4094 of the first chunk.\<close>

theorem scan_finds_first_local_header_witness:
  "\<exists>f. r_zip_skip_until_next_entry (r_zip_open straddling_stream) =
     Some (Ret (1, (r_zip_open straddling_stream)\<lparr>fp := f, header_start := 4094\<rparr>))"
proof -
  have a: "pos (fp (r_zip_open straddling_stream)) \<le> 4094"
    by (simp add: r_zip_open_def)
  have b: "4094 + 4 \<le> length (content (fp (r_zip_open straddling_stream)))"
    by (simp add: r_zip_open_def straddling_stream_def)
  have c: "le32_at (content (fp (r_zip_open straddling_stream))) 4094 = LOCAL_HEADER_SIGNATURE"
    by (simp add: r_zip_open_def straddling_stream_def le32_at_def nth_append le32_def
        LOCAL_HEADER_SIGNATURE_def)
  have d: "\<forall>j. pos (fp (r_zip_open straddling_stream)) \<le> j \<and> j < 4094 \<longrightarrow>
      \<not> is_signature (le32_at (content (fp (r_zip_open straddling_stream))) j)"
    using straddling_no_signature by (simp add: r_zip_open_def)
  show ?thesis
    using scan_finds_first_local_header [OF a b c d] by simp
qed

subsection \<open>C7: short reads\<close>

text \<open>
  Claim C7 says that a short read, in particular one of fewer than four bytes, makes the
  scan return \<^verbatim>\<open>EndOfEntries\<close> without examining offsets outside the bytes read. The code
  at three such streams, each scanned from its start: with two bytes the loop bound
  \<^verbatim>\<open>read_size - 3\<close> wraps and the word at offset 0 is examined although only two bytes
  were read; with three bytes, and with five zero bytes (a short first read with no
  signature), the scan rewinds onto the same three bytes forever and never returns.
\<close>

theorem short_reads_do_not_end_the_scan:
  "r_zip_skip_until_next_entry (r_zip_open [0, 0]) = Some UB \<and>
   r_zip_skip_until_next_entry (r_zip_open [0, 0, 0]) = None \<and>
   r_zip_skip_until_next_entry (r_zip_open [0, 0, 0, 0, 0]) = None"
proof -
  have two: "r_zip_skip_until_next_entry (r_zip_open [0, 0]) = Some UB"
    by (subst r_zip_skip_until_next_entry.simps)
       (simp add: r_zip_open_def fread_def Let_def BUFFER_SIZE_def SIZE_MAX_plus_1_def
          scan_chunk.simps)
  have three: "r_zip_skip_until_next_entry (r_zip_open [0, 0, 0]) = None"
    by (rule skip_three_never_returns) (simp add: r_zip_open_def)
  have ex: "scan_chunk [0, 0, 0, 0, 0] 2 0 = Exhausted"
    by (simp add: scan_chunk.simps le32_at_def le32_def is_terminal_signature_def LOCAL_HEADER_SIGNATURE_def
          CENTRAL_HEADER_SIGNATURE_def END_OF_CENTRAL_DIRECTORY_SIGNATURE_def
          CENTRAL_HEADER_DIGITAL_SIGNATURE_def ARCHIVE_EXTRA_DATA_SIGNATURE_def
          ZIP64_CENTRAL_FILE_HEADER_SIGNATURE_def)
  have "r_zip_skip_until_next_entry (r_zip_open [0, 0, 0, 0, 0]) =
      r_zip_skip_until_next_entry ((r_zip_open [0, 0, 0, 0, 0])\<lparr>fp := \<lparr>content = [0, 0, 0, 0, 0], pos = 2\<rparr>\<rparr>)"
    by (subst r_zip_skip_until_next_entry.simps)
       (simp add: r_zip_open_def fread_def Let_def BUFFER_SIZE_def SIZE_MAX_plus_1_def ex
          ftelli64_def fseeki64_set_def)
  also have "\<dots> = None"
    by (rule skip_three_never_returns) simp
  finally show ?thesis using two three by simp
qed

subsection \<open>C2: names longer than the filename array\<close>

text \<open>
  Claim C2 says that a header whose name length exceeds what the 256-byte \<^verbatim>\<open>filename\<close>
  array holds makes the parse fail. The code at a header that declares 300 bytes, and at
  one that declares 256: \<^verbatim>\<open>r_zip_get_next_entry\<close> does not return 0; it reads the name
  into the array with no check and stores the terminator at index \<^verbatim>\<open>name_length\<close>,
  outside the array.
\<close>

theorem long_name_overruns_filename:
  "r_zip_get_next_entry z (r_zip_open long_name_archive) = Some UB \<and>
   r_zip_get_next_entry z (r_zip_open name_256_archive) = Some UB"
  by (simp add: next_entry_defs sig_defs io_defs archive_defs long_name_archive_def
      name_256_archive_def)

subsection \<open>C3: the stream position after a decode\<close>

text \<open>
  Claim C3 says that after every decode, to the buffer sink as well, the stream stands at
  \<^verbatim>\<open>data_start\<close> plus the compressed bytes consumed. The code on a deflate entry whose
  payload is the six bytes at offsets 31 to 36, followed by another entry:
  \<^verbatim>\<open>r_extract_current\<close> leaves the stream at 37, \<^verbatim>\<open>r_extract_to_buffer\<close> returns 1 with the
  same decoded byte and leaves the stream at 73, the end of the chunk it read.
\<close>

theorem buffer_decode_does_not_reposition:
  "\<exists>zp1. r_zip_get_next_entry stored_zlib (r_zip_open deflate_then_store_archive) = Some (Ret (1, zp1)) \<and>
     compression zp1 = COMPRESSION_DEFLATE \<and> data_start zp1 = 31 \<and>
     (\<exists>zp2 af. r_extract_current stored_zlib afc_append zp1 [] = Some (1, zp2, af) \<and>
        af = [0x41] \<and> pos (fp zp2) = 37) \<and>
     (\<exists>e. r_extract_to_buffer stored_zlib zp1 = Some e \<and> er_result e = 1 \<and>
        er_buffer e = Some [0x41] \<and> pos (fp (er_zp e)) = 73)"
  by (simp add: next_entry_defs sig_defs io_defs archive_defs deflate_then_store_archive_def
      r_extract_current_def store_copy.simps zlib_defs replicate_update_same
      extract_inflate.simps extract_inflate_inner.simps r_extract_to_buffer_def
      buffer_inflate.simps buffer_inflate_inner.simps)

subsection \<open>C4: sizes of an entry with a data descriptor\<close>

text \<open>
  Claim C4 says that a header with the data-descriptor bit and a zero compressed size
  leaves both sizes zero, whatever was parsed before. The code after the five-byte entry
  \<open>a\<close> has been extracted with \<^verbatim>\<open>r_extract_current\<close> (which sets \<^verbatim>\<open>consumed\<close>, so the next
  call does not reset the state): for the entry \<open>b\<close>, \<^verbatim>\<open>comp_size\<close> is 0 and
  \<^verbatim>\<open>uncomp_size\<close> is still 5.
\<close>

theorem descriptor_entry_keeps_stale_uncomp_size:
  "\<exists>zp1 zp2 af zp3.
     r_zip_get_next_entry stored_zlib (r_zip_open descriptor_after_store_archive) = Some (Ret (1, zp1)) \<and>
     uncomp_size zp1 = 5 \<and>
     r_extract_current stored_zlib afc_append zp1 [] = Some (1, zp2, af) \<and>
     r_zip_get_next_entry stored_zlib zp2 = Some (Ret (1, zp3)) \<and>
     c_str (filename zp3) = bytes_of ''b'' \<and> flags zp3 = FLAG_DATA_DESCRIPTOR \<and>
     comp_size zp3 = 0 \<and> uncomp_size zp3 = 5"
  by (simp add: next_entry_defs sig_defs io_defs archive_defs descriptor_after_store_archive_def
      r_extract_current_def store_copy.simps zlib_defs c_str_def replicate_update_same)

subsection \<open>C5: store entries with a data descriptor\<close>

text \<open>
  Claim C5 says that a store entry is rejected whenever the data-descriptor bit is set.
  The code at a store entry with flags \<open>0x0808\<close> and deferred sizes: it is accepted
  (return value 1, \<^verbatim>\<open>comp_size\<close> 0); only the flags word \<open>0x0008\<close> is rejected.
\<close>

theorem store_descriptor_test_is_exact_equality:
  "(\<exists>zp. r_zip_get_next_entry z (r_zip_open store_descriptor_utf8_archive) = Some (Ret (1, zp)) \<and>
      compression zp = COMPRESSION_STORE \<and> flags zp AND FLAG_DATA_DESCRIPTOR \<noteq> 0 \<and>
      comp_size zp = 0) \<and>
   (\<exists>zp. r_zip_get_next_entry z (r_zip_open store_descriptor_archive) = Some (Ret (0, zp)))"
  by (simp add: next_entry_defs sig_defs io_defs archive_defs store_descriptor_utf8_archive_def
      store_descriptor_archive_def)

subsection \<open>C9: the application directory\<close>

text \<open>
  Claim C9. On the entries \<open>Payload/.hidden/foo\<close>, \<open>Payload/Foo.app/bin\<close>,
  \<open>Payload/Bar.app/bin\<close> the code returns \<open>Payload/Foo.app/\<close>, as the claim says. The claim
  also says that an entry under \<open>Payload/\<close> with no further \<^verbatim>\<open>'/'\<close> is skipped. The code at
  an archive whose first entry is \<open>Payload/readme\<close>: the walk for the \<^verbatim>\<open>'/'\<close> passes the
  terminating zero and runs off the \<^verbatim>\<open>filename\<close> array, and the \<open>.app\<close> entry behind it is
  not reached.
\<close>

theorem app_directory_walk_passes_terminator:
  "(\<exists>zp. r_get_app_directory z (r_zip_open app_example_archive) None =
       Some (Ret (0, Some (bytes_of ''Payload/Foo.app/''), zp))) \<and>
   r_get_app_directory z (r_zip_open payload_file_archive) None = Some UB"
proof -
  have a: "\<exists>zp. r_get_app_directory z (r_zip_open app_example_archive) None =
       Some (Ret (0, Some (bytes_of ''Payload/Foo.app/''), zp))"
    by (simp add: r_get_app_directory.simps next_entry_defs sig_defs io_defs archive_defs
        app_example_archive_def empty_entry_def string_defs replicate_update_same
        find_slash.simps)
  have b: "r_get_app_directory z (r_zip_open payload_file_archive) None = Some UB"
    by (simp add: r_get_app_directory.simps next_entry_defs sig_defs io_defs archive_defs
        payload_file_archive_def empty_entry_def string_defs replicate_update_same
        find_slash_none)
  show ?thesis using a b by simp
qed

subsection \<open>C10: successive lookups on one parser\<close>

text \<open>
  Claim C10 says that \<^verbatim>\<open>r_get_content\<close> never rewinds, so that an entry lying before the
  position already reached is reported as not found. It is false at an archive with the
  entries \<open>a\<close> and \<open>b\<close>: after \<open>b\<close> has been fetched the stream stands at offset 64, behind
  both entries, and the lookup of \<open>a\<close> on the same parser returns its content.
\<close>

theorem earlier_entry_is_found:
  "\<exists>r1 r2. r_get_content stored_zlib (r_zip_open two_store_entries_archive) (bytes_of ''b'') = Some (Ret r1) \<and>
     cr_ret r1 = 0 \<and> cr_buffer r1 = Some [2] \<and> pos (fp (cr_zp r1)) = 64 \<and>
     r_get_content stored_zlib (cr_zp r1) (bytes_of ''a'') = Some (Ret r2) \<and>
     cr_ret r2 = 0 \<and> cr_buffer r2 = Some [1] \<and> cr_len r2 = 1"
  by (simp add: r_get_content_def r_get_content_loop.simps next_entry_defs sig_defs io_defs archive_defs
      two_store_entries_archive_def string_defs replicate_update_same r_extract_to_buffer_def)

text \<open>
  Claim C10 as amended. Every call of \<^verbatim>\<open>r_get_content\<close> scans the archive from offset 0,
  whatever position the parser had reached and whatever entry it held: \<^verbatim>\<open>r_reset_entry\<close>
  leaves \<^verbatim>\<open>header_start\<close> at 0 (not \<open>-1\<close>, the value \<^verbatim>\<open>r_zip_open\<close> sets) with the store
  method and \<^verbatim>\<open>data_start\<close> and \<^verbatim>\<open>comp_size\<close> zero, so the first
  \<^verbatim>\<open>r_zip_get_next_entry\<close> of the lookup closes that zeroed entry by seeking to offset 0. A
  lookup on a reused parser gives what it gives on a freshly opened one.
\<close>

theorem get_content_scans_from_offset_0:
  "r_get_content z zp file_name = r_get_content z (r_zip_open (content (fp zp))) file_name"
proof -
  have "r_zip_get_next_entry z (r_reset_entry zp) =
        r_zip_get_next_entry z (r_reset_entry (r_zip_open (content (fp zp))))"
    by (cases zp, cases "fp zp")
       (simp add: r_zip_get_next_entry_def r_close_entry_def r_reset_entry_def r_zip_open_def
          COMPRESSION_STORE_def COMPRESSION_DEFLATE_def fseeki64_set_def)
  then show ?thesis
    unfolding r_get_content_def
    by (subst r_get_content_loop.simps, subst (2) r_get_content_loop.simps) simp
qed

subsection \<open>C1: the size cap of \<^verbatim>\<open>r_get_content\<close>\<close>

text \<open>The buffer sink against the streaming sink. For an inflater that is \<open>inflater_ok\<close>,
  whenever the deflate loop of \<^verbatim>\<open>r_extract_current\<close> streams the bytes \<open>out\<close> to a writer
  that accepts everything, the deflate loop of \<^verbatim>\<open>r_extract_to_buffer\<close> returns with
  exactly these bytes in its buffer, however many they are, and an allocation at least
  that long.\<close>

lemma inflater_okD:
  assumes "inflater_ok z" "inflate z st inp n = (ret, st', inp', out)"
  shows "ret \<noteq> Z_STREAM_ERROR" "length out \<le> n"
  using assms(1) [unfolded inflater_ok_def, rule_format, of st inp n] assms(2) by simp_all

lemma buffer_inner_follows_stream:
  assumes ok: "inflater_ok z"
    and run: "extract_inflate_inner z afc_append st inp af = Some r"
  shows "\<exists>ret st' inp' out. r = Inr (ret, st', inp', af @ out) \<and>
           (\<forall>a. length af \<le> a \<and> 4096 \<le> a \<longrightarrow>
              (\<exists>a'. buffer_inflate_inner z st inp af a = Some (Inr (ret, st', af @ out, a')) \<and>
                    length (af @ out) \<le> a' \<and> 4096 \<le> a'))"
proof -
  let ?P = "\<lambda>z w st inp af r. w = afc_append \<longrightarrow> inflater_ok z \<longrightarrow>
      (\<exists>ret st' inp' out. r = Inr (ret, st', inp', af @ out) \<and>
           (\<forall>a. length af \<le> a \<and> 4096 \<le> a \<longrightarrow>
              (\<exists>a'. buffer_inflate_inner z st inp af a = Some (Inr (ret, st', af @ out, a')) \<and>
                    length (af @ out) \<le> a' \<and> 4096 \<le> a')))"
  have "?P z afc_append st inp af r"
  proof (rule extract_inflate_inner.raw_induct [where P = ?P, OF _ run], goal_cases)
    case (1 inner z w st inp af r)
    show ?case
    proof (intro impI)
      assume w: "w = afc_append" and ok: "inflater_ok z"
      obtain ret st' inp' out where i: "inflate z st inp 4096 = (ret, st', inp', out)"
        by (cases "inflate z st inp 4096") auto
      have ne: "ret \<noteq> Z_STREAM_ERROR" and le: "length out \<le> 4096"
        using inflater_okD [OF ok i] by simp_all
      show "\<exists>ret st' inp' out. r = Inr (ret, st', inp', af @ out) \<and>
           (\<forall>a. length af \<le> a \<and> 4096 \<le> a \<longrightarrow>
              (\<exists>a'. buffer_inflate_inner z st inp af a = Some (Inr (ret, st', af @ out, a')) \<and>
                    length (af @ out) \<le> a' \<and> 4096 \<le> a'))"
      proof (cases "4096 - length out = 0")
        case False
        then have r: "r = Inr (ret, st', inp', af @ out)"
          using 1(2) i ne w by (simp add: afc_append_def AFC_E_SUCCESS_def)
        have "\<exists>a'. buffer_inflate_inner z st inp af a = Some (Inr (ret, st', af @ out, a')) \<and>
                    length (af @ out) \<le> a' \<and> 4096 \<le> a'"
          if "length af \<le> a \<and> 4096 \<le> a" for a
          using that False le ne i
          by (subst buffer_inflate_inner.simps) (auto simp: Let_def)
        then show ?thesis using r by blast
      next
        case True
        then have rec: "inner z w st' inp' (af @ out) = Some r"
          using 1(2) i ne w by (simp add: afc_append_def AFC_E_SUCCESS_def)
        from 1(1) [OF rec] w ok obtain ret2 st2 inp2 out2 where
          r: "r = Inr (ret2, st2, inp2, (af @ out) @ out2)" and
          b: "\<forall>a. length (af @ out) \<le> a \<and> 4096 \<le> a \<longrightarrow>
              (\<exists>a'. buffer_inflate_inner z st' inp' (af @ out) a =
                      Some (Inr (ret2, st2, (af @ out) @ out2, a')) \<and>
                    length ((af @ out) @ out2) \<le> a' \<and> 4096 \<le> a')"
          by blast
        have "\<exists>a'. buffer_inflate_inner z st inp af a =
                  Some (Inr (ret2, st2, af @ (out @ out2), a')) \<and>
                    length (af @ (out @ out2)) \<le> a' \<and> 4096 \<le> a'"
          if a: "length af \<le> a \<and> 4096 \<le> a" for a
        proof -
          define a1 where "a1 = (if length af + length out > a then a * 2 else a)"
          have a1: "length (af @ out) \<le> a1 \<and> 4096 \<le> a1"
            using a le by (auto simp: a1_def)
          from b [rule_format, OF a1] obtain a' where
            "buffer_inflate_inner z st' inp' (af @ out) a1 =
               Some (Inr (ret2, st2, (af @ out) @ out2, a'))"
            "length ((af @ out) @ out2) \<le> a'" "4096 \<le> a'" by blast
          then show ?thesis
            using True ne i
            by (subst buffer_inflate_inner.simps) (auto simp: Let_def a1_def)
        qed
        then show ?thesis using r by (intro exI [of _ ret2] exI [of _ st2] exI [of _ inp2]
              exI [of _ "out @ out2"]) simp
      qed
    qed
  qed
  then show ?thesis using ok by simp
qed

lemma buffer_follows_stream:
  assumes ok: "inflater_ok z"
    and run: "extract_inflate z afc_append f st t af = Some r"
  shows "\<exists>f' total out. r = Inr (f', total, af @ out) \<and>
           (\<forall>a. length af \<le> a \<and> 4096 \<le> a \<longrightarrow>
              (\<exists>a'. buffer_inflate z f st af a = Some (Inr (f', af @ out, a')) \<and>
                    length (af @ out) \<le> a'))"
proof -
  let ?P = "\<lambda>z w f st (t::int) af r. w = afc_append \<longrightarrow> inflater_ok z \<longrightarrow>
      (\<exists>f' total out. r = Inr (f', total, af @ out) \<and>
           (\<forall>a. length af \<le> a \<and> 4096 \<le> a \<longrightarrow>
              (\<exists>a'. buffer_inflate z f st af a = Some (Inr (f', af @ out, a')) \<and>
                    length (af @ out) \<le> a')))"
  have "?P z afc_append f st t af r"
  proof (rule extract_inflate.raw_induct [where P = ?P, OF _ run], goal_cases)
    case (1 outer z w f st t af r)
    show ?case
    proof (intro impI)
      assume w: "w = afc_append" and ok: "inflater_ok z"
      define rd where "rd = fread f 4096"
      obtain x where x: "extract_inflate_inner z afc_append st (fst rd) af = Some x"
        using 1(2) w by (cases "extract_inflate_inner z afc_append st (fst rd) af")
          (auto simp: Let_def rd_def)
      from buffer_inner_follows_stream [OF ok x] obtain ret st' inp' out where
        xr: "x = Inr (ret, st', inp', af @ out)" and
        b: "\<forall>a. length af \<le> a \<and> 4096 \<le> a \<longrightarrow>
              (\<exists>a'. buffer_inflate_inner z st (fst rd) af a = Some (Inr (ret, st', af @ out, a')) \<and>
                    length (af @ out) \<le> a' \<and> 4096 \<le> a')"
        by blast
      show "\<exists>f' total out. r = Inr (f', total, af @ out) \<and>
           (\<forall>a. length af \<le> a \<and> 4096 \<le> a \<longrightarrow>
              (\<exists>a'. buffer_inflate z f st af a = Some (Inr (f', af @ out, a')) \<and>
                    length (af @ out) \<le> a'))"
      proof (cases "ret = Z_STREAM_END")
        case True
        then have r: "r = Inr (snd rd, t + (int (length (fst rd)) - int (length inp')), af @ out)"
          using 1(2) w x xr by (simp add: Let_def rd_def)
        have "\<exists>a'. buffer_inflate z f st af a = Some (Inr (snd rd, af @ out, a')) \<and>
                    length (af @ out) \<le> a'"
          if a: "length af \<le> a \<and> 4096 \<le> a" for a
        proof -
          from b [rule_format, OF a] obtain a' where
            "buffer_inflate_inner z st (fst rd) af a = Some (Inr (ret, st', af @ out, a'))"
            "length (af @ out) \<le> a'" by blast
          then show ?thesis using True
            by (subst buffer_inflate.simps) (auto simp: Let_def rd_def)
        qed
        then show ?thesis using r by blast
      next
        case False
        then have rec: "outer z w (snd rd) st'
            (t + (int (length (fst rd)) - int (length inp'))) (af @ out) = Some r"
          using 1(2) w x xr by (simp add: Let_def rd_def)
        from 1(1) [OF rec] w ok obtain f' total out2 where
          r: "r = Inr (f', total, (af @ out) @ out2)" and
          c: "\<forall>a. length (af @ out) \<le> a \<and> 4096 \<le> a \<longrightarrow>
              (\<exists>a'. buffer_inflate z (snd rd) st' (af @ out) a =
                     Some (Inr (f', (af @ out) @ out2, a')) \<and>
                    length ((af @ out) @ out2) \<le> a')"
          by blast
        have "\<exists>a'. buffer_inflate z f st af a = Some (Inr (f', af @ (out @ out2), a')) \<and>
                    length (af @ (out @ out2)) \<le> a'"
          if a: "length af \<le> a \<and> 4096 \<le> a" for a
        proof -
          from b [rule_format, OF a] obtain a1 where a1:
            "buffer_inflate_inner z st (fst rd) af a = Some (Inr (ret, st', af @ out, a1))"
            "length (af @ out) \<le> a1" "4096 \<le> a1" by blast
          from c [rule_format, of a1] a1 obtain a' where
            "buffer_inflate z (snd rd) st' (af @ out) a1 =
                     Some (Inr (f', (af @ out) @ out2, a'))"
            "length ((af @ out) @ out2) \<le> a'" by blast
          then show ?thesis using False a1(1)
            by (subst buffer_inflate.simps) (auto simp: Let_def rd_def)
        qed
        then show ?thesis using r
          by (intro exI [of _ f'] exI [of _ total] exI [of _ "out @ out2"]) simp
      qed
    qed
  qed
  then show ?thesis using ok by simp
qed

lemma buffer_holds_streamed_output:
  assumes ok: "inflater_ok z" and d: "compression zp = COMPRESSION_DEFLATE"
    and run: "r_extract_current z afc_append zp [] = Some (1, zp2, out)"
  shows "\<exists>e. r_extract_to_buffer z zp = Some e \<and> er_result e = 1 \<and>
           er_buffer e = (if out = [] then None else Some out) \<and>
           er_len e = length out \<and> length out \<le> er_alloc e"
proof -
  define f0 where "f0 = fseeki64_set (fp zp) (data_start zp)"
  have ns: "compression zp \<noteq> COMPRESSION_STORE"
    using d by (simp add: COMPRESSION_STORE_def COMPRESSION_DEFLATE_def)
  obtain x where x: "extract_inflate z afc_append f0 (inflateInit2 z) 0 [] = Some x"
    using run d ns
    by (cases "extract_inflate z afc_append f0 (inflateInit2 z) 0 []")
       (auto simp: r_extract_current_def Let_def f0_def)
  from buffer_follows_stream [OF ok x] obtain f' total o2 where
    xr: "x = Inr (f', total, [] @ o2)" and
    b: "\<forall>a. length ([]::byte list) \<le> a \<and> 4096 \<le> a \<longrightarrow>
          (\<exists>a'. buffer_inflate z f0 (inflateInit2 z) [] a = Some (Inr (f', [] @ o2, a')) \<and>
                length ([] @ o2) \<le> a')"
    by blast
  have o: "o2 = out"
    using run d ns x xr by (simp add: r_extract_current_def Let_def f0_def)
  from b [rule_format, of 4096] obtain a' where
    "buffer_inflate z f0 (inflateInit2 z) [] 4096 = Some (Inr (f', o2, a'))" "length o2 \<le> a'"
    by auto
  then show ?thesis
    using d ns o by (simp add: r_extract_to_buffer_def Let_def f0_def)
qed

lemma deflate_unknown_size_is_buffered_whole:
  assumes "r_zip_get_next_entry z zp = Some (Ret (1, zp1))"
    and "strncmp (filename zp1) file_name (strlen file_name) = 0"
    and "uncomp_size zp1 = 0" and "compression zp1 = COMPRESSION_DEFLATE"
    and "inflater_ok z" and "r_extract_current z afc_append zp1 [] = Some (1, zp2, out)"
  shows "\<exists>r. r_get_content_loop z zp file_name = Some (Ret r) \<and>
           cr_ret r = (if length out > 10485760 then - 1 else 0) \<and>
           cr_buffer r = (if out = [] then None else Some out) \<and>
           length out \<le> cr_alloc r"
proof -
  from buffer_holds_streamed_output [OF assms(5) assms(4) assms(6)] obtain e where
    e: "r_extract_to_buffer z zp1 = Some e" "er_buffer e = (if out = [] then None else Some out)"
      "er_len e = length out" "length out \<le> er_alloc e"
    by blast
  show ?thesis
    by (subst r_get_content_loop.simps) (simp add: assms(1,2,3) e)
qed

lemma expanding_ok: "inflater_ok (expanding_zlib n)"
  by (simp add: inflater_ok_def expanding_zlib_def expanding_inflate_def Z_STREAM_END_def
      Z_OK_def Z_STREAM_ERROR_def)

lemma expanding_inner:
  "extract_inflate_inner (expanding_zlib m) afc_append n inp af =
     Some (Inr (Z_STREAM_END, 0, [], af @ replicate n 0x41))"
proof (induction n arbitrary: inp af rule: less_induct)
  case (less n)
  consider "n < 4096" | "n = 4096" | "4096 < n" by linarith
  then show ?case
  proof cases
    case 1
    then show ?thesis
      by (subst extract_inflate_inner.simps)
         (simp add: expanding_zlib_def expanding_inflate_def afc_append_def AFC_E_SUCCESS_def
            Z_STREAM_END_def Z_STREAM_ERROR_def)
  next
    case 2
    have "extract_inflate_inner (expanding_zlib m) afc_append 0 [] (af @ replicate 4096 0x41) =
        Some (Inr (Z_STREAM_END, 0, [], (af @ replicate 4096 0x41) @ replicate 0 0x41))"
      using 2 by (intro less.IH) simp
    then show ?thesis using 2
      by (subst extract_inflate_inner.simps)
         (simp add: expanding_zlib_def expanding_inflate_def afc_append_def AFC_E_SUCCESS_def
            Z_STREAM_END_def Z_STREAM_ERROR_def)
  next
    case 3
    have "extract_inflate_inner (expanding_zlib m) afc_append (n - 4096) []
          (af @ replicate 4096 0x41) =
        Some (Inr (Z_STREAM_END, 0, [], (af @ replicate 4096 0x41) @ replicate (n - 4096) 0x41))"
      using 3 by (intro less.IH) simp
    moreover have "replicate 4096 (0x41::byte) @ replicate (n - 4096) 0x41 = replicate n 0x41"
      using 3 by (simp add: replicate_add [symmetric])
    ultimately show ?thesis using 3
      by (subst extract_inflate_inner.simps)
         (simp add: expanding_zlib_def expanding_inflate_def afc_append_def AFC_E_SUCCESS_def
            Z_STREAM_END_def Z_STREAM_ERROR_def Z_OK_def)
  qed
qed

lemma expanding_extract:
  assumes "compression zp = COMPRESSION_DEFLATE"
  shows "\<exists>zp2. r_extract_current (expanding_zlib n) afc_append zp [] =
           Some (1, zp2, replicate n 0x41)"
proof -
  have ns: "compression zp \<noteq> COMPRESSION_STORE"
    using assms by (simp add: COMPRESSION_STORE_def COMPRESSION_DEFLATE_def)
  have "\<exists>f t. extract_inflate (expanding_zlib n) afc_append f0 n 0 [] =
      Some (Inr (f, t, replicate n 0x41))" for f0
    by (subst extract_inflate.simps) (simp add: Let_def expanding_inner)
  then obtain f t where
    "extract_inflate (expanding_zlib n) afc_append (fseeki64_set (fp zp) (data_start zp)) n 0 [] =
      Some (Inr (f, t, replicate n 0x41))" by blast
  then show ?thesis
    using assms ns by (simp add: r_extract_current_def Let_def expanding_zlib_def)
qed

lemma unknown_size_entry_any_zlib:
  "\<exists>zp1. r_zip_get_next_entry z (r_reset_entry (r_zip_open unknown_size_archive)) =
       Some (Ret (1, zp1)) \<and>
     strncmp (filename zp1) (bytes_of ''x'') (strlen (bytes_of ''x'')) = 0 \<and>
     uncomp_size zp1 = 0 \<and> compression zp1 = COMPRESSION_DEFLATE"
  by (simp add: next_entry_defs sig_defs io_defs archive_defs unknown_size_archive_def
      string_defs replicate_update_same)

text \<open>
  Claim C1 says that for a matching entry of unknown (zero) declared size the decode is
  bounded while it runs, so that the buffered memory never exceeds 10485760 bytes. It is
  false at a store entry \<open>x\<close> whose header declares the uncompressed size 0 and whose
  payload has 10485761 bytes: \<^verbatim>\<open>r_extract_to_buffer\<close> allocates and fills a buffer of
  10485761 bytes, and only then \<^verbatim>\<open>r_get_content\<close> returns \<open>-1\<close>. It is false as well at a
  deflate entry \<open>x\<close> with deferred sizes whose stream decodes to 10485761 bytes: all of
  them are in the buffer when \<open>-1\<close> is returned.
\<close>

theorem unknown_size_decode_exceeds_cap:
  "(\<exists>zp1 r. r_zip_get_next_entry stored_zlib (r_reset_entry (r_zip_open huge_store_archive)) =
        Some (Ret (1, zp1)) \<and>
      strncmp (filename zp1) (bytes_of ''x'') (strlen (bytes_of ''x'')) = 0 \<and> uncomp_size zp1 = 0 \<and>
      r_get_content stored_zlib (r_zip_open huge_store_archive) (bytes_of ''x'') = Some (Ret r) \<and>
      cr_ret r = - 1 \<and> cr_buffer r = Some (replicate 10485761 0x41) \<and> cr_alloc r = 10485761) \<and>
   (\<exists>zp1 r.
      r_zip_get_next_entry (expanding_zlib 10485761)
        (r_reset_entry (r_zip_open unknown_size_archive)) = Some (Ret (1, zp1)) \<and>
      strncmp (filename zp1) (bytes_of ''x'') (strlen (bytes_of ''x'')) = 0 \<and>
      uncomp_size zp1 = 0 \<and> compression zp1 = COMPRESSION_DEFLATE \<and>
      r_get_content (expanding_zlib 10485761) (r_zip_open unknown_size_archive) (bytes_of ''x'') =
        Some (Ret r) \<and>
      cr_ret r = - 1 \<and> cr_buffer r = Some (replicate 10485761 0x41) \<and>
      10485761 \<le> cr_alloc r)"
proof -
  have store: "\<exists>zp1 r.
      r_zip_get_next_entry stored_zlib (r_reset_entry (r_zip_open huge_store_archive)) =
        Some (Ret (1, zp1)) \<and>
      strncmp (filename zp1) (bytes_of ''x'') (strlen (bytes_of ''x'')) = 0 \<and> uncomp_size zp1 = 0 \<and>
      r_get_content stored_zlib (r_zip_open huge_store_archive) (bytes_of ''x'') = Some (Ret r) \<and>
      cr_ret r = - 1 \<and> cr_buffer r = Some (replicate 10485761 0x41) \<and> cr_alloc r = 10485761"
    by (simp add: r_get_content_def r_get_content_loop.simps next_entry_defs sig_defs io_defs
        archive_defs huge_store_archive_def string_defs replicate_update_same
        r_extract_to_buffer_def)
  obtain zp1 where a:
    "r_zip_get_next_entry (expanding_zlib 10485761)
       (r_reset_entry (r_zip_open unknown_size_archive)) = Some (Ret (1, zp1))"
    "strncmp (filename zp1) (bytes_of ''x'') (strlen (bytes_of ''x'')) = 0"
    "uncomp_size zp1 = 0" "compression zp1 = COMPRESSION_DEFLATE"
    using unknown_size_entry_any_zlib [of "expanding_zlib 10485761"] by blast
  obtain zp2 where x: "r_extract_current (expanding_zlib 10485761) afc_append zp1 [] =
      Some (1, zp2, replicate 10485761 0x41)"
    using expanding_extract [OF a(4)] by blast
  from deflate_unknown_size_is_buffered_whole [OF a(1) a(2) a(3) a(4) expanding_ok x]
  obtain r where
    "r_get_content_loop (expanding_zlib 10485761) (r_reset_entry (r_zip_open unknown_size_archive))
       (bytes_of ''x'') = Some (Ret r)"
    "cr_ret r = - 1" "cr_buffer r = Some (replicate 10485761 0x41)" "10485761 \<le> cr_alloc r"
    by auto
  then have deflate: "\<exists>zp1 r.
      r_zip_get_next_entry (expanding_zlib 10485761)
        (r_reset_entry (r_zip_open unknown_size_archive)) = Some (Ret (1, zp1)) \<and>
      strncmp (filename zp1) (bytes_of ''x'') (strlen (bytes_of ''x'')) = 0 \<and>
      uncomp_size zp1 = 0 \<and> compression zp1 = COMPRESSION_DEFLATE \<and>
      r_get_content (expanding_zlib 10485761) (r_zip_open unknown_size_archive) (bytes_of ''x'') =
        Some (Ret r) \<and>
      cr_ret r = - 1 \<and> cr_buffer r = Some (replicate 10485761 0x41) \<and>
      10485761 \<le> cr_alloc r"
    using a by (auto simp: r_get_content_def)
  show ?thesis using store deflate by blast
qed

text \<open>
  Claim C1 as amended. At the first entry whose name matches: if the uncompressed size
  recorded for it (\<^verbatim>\<open>uncomp_size\<close>) exceeds 10485760, \<^verbatim>\<open>r_get_content\<close> returns \<open>-1\<close>
  without calling \<^verbatim>\<open>r_extract_to_buffer\<close> (nothing is allocated and the stream stays at
  the payload start); if the recorded size is zero, \<^verbatim>\<open>r_extract_to_buffer\<close> decodes the
  whole entry with no cap applied meanwhile, and only afterwards the produced length is
  compared with 10485760, \<open>-1\<close> being returned if it is larger. Nothing bounds the buffer
  meanwhile: for a store entry the buffer allocated has the recorded compressed size,
  whatever it is; for a deflate entry the buffer receives every byte the inflater
  produces (the bytes that \<^verbatim>\<open>r_extract_current\<close> streams to a writer that accepts them
  all), and its allocation is at least that long.
\<close>

theorem content_size_is_checked_around_the_decode:
  assumes "r_zip_get_next_entry z zp = Some (Ret (1, zp1))"
    and "strncmp (filename zp1) file_name (strlen file_name) = 0"
  shows "(uncomp_size zp1 > 10485760 \<longrightarrow>
            r_get_content_loop z zp file_name =
              Some (Ret \<lparr>cr_ret = - 1, cr_buffer = None, cr_len = 0,
                         cr_zp = r_reset_entry zp1, cr_alloc = 0\<rparr>)) \<and>
         (uncomp_size zp1 = 0 \<longrightarrow>
            (\<forall>e. r_extract_to_buffer z zp1 = Some e \<longrightarrow>
               r_get_content_loop z zp file_name =
                 Some (Ret \<lparr>cr_ret = (if er_len e > 10485760 then - 1 else 0),
                            cr_buffer = er_buffer e,
                            cr_len = (if er_len e > 10485760 then 0 else word_of_nat (er_len e)),
                            cr_zp = r_reset_entry (er_zp e), cr_alloc = er_alloc e\<rparr>))) \<and>
         (uncomp_size zp1 = 0 \<and> compression zp1 = COMPRESSION_STORE \<longrightarrow>
            (\<exists>r. r_get_content_loop z zp file_name = Some (Ret r) \<and>
                 cr_alloc r = unat (comp_size zp1))) \<and>
         (uncomp_size zp1 = 0 \<and> compression zp1 = COMPRESSION_DEFLATE \<and> inflater_ok z \<and>
          r_extract_current z afc_append zp1 [] = Some (1, zp2, out) \<longrightarrow>
            (\<exists>r. r_get_content_loop z zp file_name = Some (Ret r) \<and>
                 cr_ret r = (if length out > 10485760 then - 1 else 0) \<and>
                 cr_buffer r = (if out = [] then None else Some out) \<and>
                 length out \<le> cr_alloc r))"
proof (intro conjI impI allI)
  assume big: "uncomp_size zp1 > 10485760"
  then have nz: "uncomp_size zp1 \<noteq> 0" by auto
  show "r_get_content_loop z zp file_name =
      Some (Ret \<lparr>cr_ret = - 1, cr_buffer = None, cr_len = 0, cr_zp = r_reset_entry zp1,
                 cr_alloc = 0\<rparr>)"
    by (subst r_get_content_loop.simps) (simp add: assms big nz)
next
  fix e
  assume "uncomp_size zp1 = 0" and "r_extract_to_buffer z zp1 = Some e"
  then show "r_get_content_loop z zp file_name =
      Some (Ret \<lparr>cr_ret = (if er_len e > 10485760 then - 1 else 0), cr_buffer = er_buffer e,
                 cr_len = (if er_len e > 10485760 then 0 else word_of_nat (er_len e)),
                 cr_zp = r_reset_entry (er_zp e), cr_alloc = er_alloc e\<rparr>)"
    by (subst r_get_content_loop.simps) (simp add: assms)
next
  assume a: "uncomp_size zp1 = 0 \<and> compression zp1 = COMPRESSION_STORE"
  show "\<exists>r. r_get_content_loop z zp file_name = Some (Ret r) \<and> cr_alloc r = unat (comp_size zp1)"
    using a
    by (subst r_get_content_loop.simps) (simp add: assms r_extract_to_buffer_def Let_def)
next
  assume d: "uncomp_size zp1 = 0 \<and> compression zp1 = COMPRESSION_DEFLATE \<and> inflater_ok z \<and>
      r_extract_current z afc_append zp1 [] = Some (1, zp2, out)"
  show "\<exists>r. r_get_content_loop z zp file_name = Some (Ret r) \<and>
      cr_ret r = (if length out > 10485760 then - 1 else 0) \<and>
      cr_buffer r = (if out = [] then None else Some out) \<and> length out \<le> cr_alloc r"
    using deflate_unknown_size_is_buffered_whole [OF assms(1) assms(2), of zp2 out] d by blast
qed

text \<open>The theorem at an entry that declares 10485761 bytes, at an entry with both sizes
  deferred, at the store entry of 10485761 bytes with the declared size 0, and at the
  deflate entry with deferred sizes under an inflater that produces 10485761 bytes.\<close>

lemma too_large_entry:
  "\<exists>zp1. r_zip_get_next_entry stored_zlib (r_reset_entry (r_zip_open declared_too_large_archive)) =
       Some (Ret (1, zp1)) \<and>
     strncmp (filename zp1) (bytes_of ''x'') (strlen (bytes_of ''x'')) = 0 \<and>
     uncomp_size zp1 = 10485761 \<and> pos (fp zp1) = 31"
  by (simp add: next_entry_defs sig_defs io_defs archive_defs declared_too_large_archive_def
      string_defs replicate_update_same)

lemma unknown_size_entry:
  "\<exists>zp1 e. r_zip_get_next_entry stored_zlib (r_reset_entry (r_zip_open unknown_size_archive)) =
       Some (Ret (1, zp1)) \<and>
     strncmp (filename zp1) (bytes_of ''x'') (strlen (bytes_of ''x'')) = 0 \<and>
     uncomp_size zp1 = 0 \<and> r_extract_to_buffer stored_zlib zp1 = Some e \<and>
     er_len e = 1 \<and> er_buffer e = Some [0x41]"
  by (simp add: next_entry_defs sig_defs io_defs archive_defs unknown_size_archive_def
      string_defs replicate_update_same r_extract_to_buffer_def zlib_defs
      buffer_inflate.simps buffer_inflate_inner.simps)

lemma huge_store_entry:
  "\<exists>zp1. r_zip_get_next_entry stored_zlib (r_reset_entry (r_zip_open huge_store_archive)) =
       Some (Ret (1, zp1)) \<and>
     strncmp (filename zp1) (bytes_of ''x'') (strlen (bytes_of ''x'')) = 0 \<and>
     uncomp_size zp1 = 0 \<and> compression zp1 = COMPRESSION_STORE \<and> comp_size zp1 = 10485761"
  by (simp add: next_entry_defs sig_defs io_defs archive_defs huge_store_archive_def
      string_defs replicate_update_same)

theorem content_size_is_checked_around_the_decode_witness:
  "(\<exists>r. r_get_content stored_zlib (r_zip_open declared_too_large_archive) (bytes_of ''x'') =
        Some (Ret r) \<and>
      cr_ret r = - 1 \<and> cr_buffer r = None \<and> cr_alloc r = 0 \<and> pos (fp (cr_zp r)) = 31) \<and>
   (\<exists>r. r_get_content stored_zlib (r_zip_open unknown_size_archive) (bytes_of ''x'') =
        Some (Ret r) \<and>
      cr_ret r = 0 \<and> cr_buffer r = Some [0x41] \<and> cr_len r = 1) \<and>
   (\<exists>r. r_get_content stored_zlib (r_zip_open huge_store_archive) (bytes_of ''x'') =
        Some (Ret r) \<and>
      cr_alloc r = 10485761) \<and>
   (\<exists>r. r_get_content (expanding_zlib 10485761) (r_zip_open unknown_size_archive)
        (bytes_of ''x'') = Some (Ret r) \<and>
      cr_ret r = - 1 \<and> cr_buffer r = Some (replicate 10485761 0x41) \<and>
      10485761 \<le> cr_alloc r)"
proof -
  obtain zp1 where a:
    "r_zip_get_next_entry stored_zlib (r_reset_entry (r_zip_open declared_too_large_archive)) =
       Some (Ret (1, zp1))"
    "strncmp (filename zp1) (bytes_of ''x'') (strlen (bytes_of ''x'')) = 0"
    "uncomp_size zp1 = 10485761" "pos (fp zp1) = 31"
    using too_large_entry by blast
  have "r_get_content_loop stored_zlib (r_reset_entry (r_zip_open declared_too_large_archive))
      (bytes_of ''x'') =
      Some (Ret \<lparr>cr_ret = - 1, cr_buffer = None, cr_len = 0, cr_zp = r_reset_entry zp1,
                 cr_alloc = 0\<rparr>)"
    using content_size_is_checked_around_the_decode [OF a(1) a(2)] a(3) by simp
  then have first: "\<exists>r. r_get_content stored_zlib (r_zip_open declared_too_large_archive)
        (bytes_of ''x'') = Some (Ret r) \<and>
      cr_ret r = - 1 \<and> cr_buffer r = None \<and> cr_alloc r = 0 \<and> pos (fp (cr_zp r)) = 31"
    using a(4) by (simp add: r_get_content_def r_reset_entry_def)
  obtain zp2 e where b:
    "r_zip_get_next_entry stored_zlib (r_reset_entry (r_zip_open unknown_size_archive)) =
       Some (Ret (1, zp2))"
    "strncmp (filename zp2) (bytes_of ''x'') (strlen (bytes_of ''x'')) = 0"
    "uncomp_size zp2 = 0" "r_extract_to_buffer stored_zlib zp2 = Some e"
    "er_len e = 1" "er_buffer e = Some [0x41]"
    using unknown_size_entry by blast
  have "r_get_content_loop stored_zlib (r_reset_entry (r_zip_open unknown_size_archive))
      (bytes_of ''x'') =
      Some (Ret \<lparr>cr_ret = (if er_len e > 10485760 then - 1 else 0), cr_buffer = er_buffer e,
                 cr_len = (if er_len e > 10485760 then 0 else word_of_nat (er_len e)),
                 cr_zp = r_reset_entry (er_zp e), cr_alloc = er_alloc e\<rparr>)"
    using content_size_is_checked_around_the_decode [OF b(1) b(2)] b(3) b(4) by simp
  then have second: "\<exists>r. r_get_content stored_zlib (r_zip_open unknown_size_archive)
        (bytes_of ''x'') = Some (Ret r) \<and>
      cr_ret r = 0 \<and> cr_buffer r = Some [0x41] \<and> cr_len r = 1"
    using b(5) b(6) by (simp add: r_get_content_def)
  obtain zp3 where c:
    "r_zip_get_next_entry stored_zlib (r_reset_entry (r_zip_open huge_store_archive)) =
       Some (Ret (1, zp3))"
    "strncmp (filename zp3) (bytes_of ''x'') (strlen (bytes_of ''x'')) = 0"
    "uncomp_size zp3 = 0" "compression zp3 = COMPRESSION_STORE" "comp_size zp3 = 10485761"
    using huge_store_entry by blast
  have "\<exists>r. r_get_content_loop stored_zlib (r_reset_entry (r_zip_open huge_store_archive))
      (bytes_of ''x'') = Some (Ret r) \<and> cr_alloc r = unat (comp_size zp3)"
    using content_size_is_checked_around_the_decode [OF c(1) c(2)] c(3) c(4) by blast
  then have third: "\<exists>r. r_get_content stored_zlib (r_zip_open huge_store_archive)
        (bytes_of ''x'') = Some (Ret r) \<and> cr_alloc r = 10485761"
    using c(5) by (simp add: r_get_content_def)
  obtain zp4 where d:
    "r_zip_get_next_entry (expanding_zlib 10485761)
       (r_reset_entry (r_zip_open unknown_size_archive)) = Some (Ret (1, zp4))"
    "strncmp (filename zp4) (bytes_of ''x'') (strlen (bytes_of ''x'')) = 0"
    "uncomp_size zp4 = 0" "compression zp4 = COMPRESSION_DEFLATE"
    using unknown_size_entry_any_zlib [of "expanding_zlib 10485761"] by blast
  obtain zp5 where x: "r_extract_current (expanding_zlib 10485761) afc_append zp4 [] =
      Some (1, zp5, replicate 10485761 0x41)"
    using expanding_extract [OF d(4)] by blast
  have ok: "inflater_ok (expanding_zlib 10485761)" by (rule expanding_ok)
  have "\<exists>r. r_get_content_loop (expanding_zlib 10485761)
        (r_reset_entry (r_zip_open unknown_size_archive)) (bytes_of ''x'') = Some (Ret r) \<and>
      cr_ret r = (if length (replicate 10485761 (0x41::byte)) > 10485760 then - 1 else 0) \<and>
      cr_buffer r = (if replicate 10485761 (0x41::byte) = [] then None
                     else Some (replicate 10485761 0x41)) \<and>
      length (replicate 10485761 (0x41::byte)) \<le> cr_alloc r"
    using content_size_is_checked_around_the_decode
      [OF d(1) d(2), of zp5 "replicate 10485761 0x41"] d(3) d(4) ok x
    by blast
  then have fourth: "\<exists>r. r_get_content (expanding_zlib 10485761)
        (r_zip_open unknown_size_archive) (bytes_of ''x'') = Some (Ret r) \<and>
      cr_ret r = - 1 \<and> cr_buffer r = Some (replicate 10485761 0x41) \<and>
      10485761 \<le> cr_alloc r"
    by (simp add: r_get_content_def)
  show ?thesis using first second third fourth by simp
qed

subsection \<open>C8: closing the current entry before the next scan\<close>

text \<open>
  Claim C8 says that whenever \<^verbatim>\<open>r_zip_get_next_entry\<close> is called while the current entry
  is positioned and has not been consumed, the entry is first skipped so that the stream
  stands exactly past its payload, and that two calls in a row therefore yield the next
  real entry. The code at two inputs, in both of which the payload of the current entry
  holds the bytes of a local header with the name \<open>f\<close>.

  \<^item> A store entry \<open>a\<close> with flags \<open>0x0808\<close> and deferred sizes (accepted because only the
    flags word \<open>0x0008\<close> is rejected, see C5): it is closed by a seek to \<^verbatim>\<open>data_start\<close>
    plus 0, and the second call returns the bytes at offset 31 as an entry instead of the
    entry \<open>b\<close> at offset 62.
  \<^item> Three store entries with sizes in their headers: after \<open>a\<close> has been extracted with
    \<^verbatim>\<open>r_extract_current\<close>, the next call positions \<open>b\<close>, but \<^verbatim>\<open>consumed\<close> is still true
    (nothing clears it when an entry is positioned), so the call after that does not
    close \<open>b\<close>: it scans from the payload start 67 and returns the bytes there as an entry
    instead of the entry \<open>c\<close> at offset 98.
\<close>

theorem unconsumed_entry_is_not_always_skipped:
  "(\<exists>zp1 zp2.
      r_zip_get_next_entry stored_zlib (r_zip_open deferred_store_archive) = Some (Ret (1, zp1)) \<and>
      consumed zp1 = False \<and> header_start zp1 = 0 \<and> compression zp1 = COMPRESSION_STORE \<and>
      data_start zp1 = 31 \<and> comp_size zp1 = 0 \<and> header_at deferred_store_archive 62 \<and>
      r_zip_get_next_entry stored_zlib zp1 = Some (Ret (1, zp2)) \<and>
      header_start zp2 = 31 \<and> c_str (filename zp2) = bytes_of ''f'') \<and>
   (\<exists>zp1 zp2 af zp3 zp4.
      r_zip_get_next_entry stored_zlib (r_zip_open three_entries_archive) = Some (Ret (1, zp1)) \<and>
      r_extract_current stored_zlib afc_append zp1 [] = Some (1, zp2, af) \<and>
      r_zip_get_next_entry stored_zlib zp2 = Some (Ret (1, zp3)) \<and>
      c_str (filename zp3) = bytes_of ''b'' \<and> header_start zp3 = 36 \<and> data_start zp3 = 67 \<and>
      comp_size zp3 = 31 \<and> consumed zp3 = True \<and> header_at three_entries_archive 98 \<and>
      r_zip_get_next_entry stored_zlib zp3 = Some (Ret (1, zp4)) \<and>
      header_start zp4 = 67 \<and> c_str (filename zp4) = bytes_of ''f'')"
proof -
  have a: "\<exists>zp1 zp2.
      r_zip_get_next_entry stored_zlib (r_zip_open deferred_store_archive) = Some (Ret (1, zp1)) \<and>
      consumed zp1 = False \<and> header_start zp1 = 0 \<and> compression zp1 = COMPRESSION_STORE \<and>
      data_start zp1 = 31 \<and> comp_size zp1 = 0 \<and> header_at deferred_store_archive 62 \<and>
      r_zip_get_next_entry stored_zlib zp1 = Some (Ret (1, zp2)) \<and>
      header_start zp2 = 31 \<and> c_str (filename zp2) = bytes_of ''f''"
    by (simp add: next_entry_defs sig_defs io_defs archive_defs deferred_store_archive_def
        string_defs replicate_update_same header_at_def)
  have b: "\<exists>zp1 zp2 af zp3 zp4.
      r_zip_get_next_entry stored_zlib (r_zip_open three_entries_archive) = Some (Ret (1, zp1)) \<and>
      r_extract_current stored_zlib afc_append zp1 [] = Some (1, zp2, af) \<and>
      r_zip_get_next_entry stored_zlib zp2 = Some (Ret (1, zp3)) \<and>
      c_str (filename zp3) = bytes_of ''b'' \<and> header_start zp3 = 36 \<and> data_start zp3 = 67 \<and>
      comp_size zp3 = 31 \<and> consumed zp3 = True \<and> header_at three_entries_archive 98 \<and>
      r_zip_get_next_entry stored_zlib zp3 = Some (Ret (1, zp4)) \<and>
      header_start zp4 = 67 \<and> c_str (filename zp4) = bytes_of ''f''"
    by (simp add: next_entry_defs sig_defs io_defs archive_defs three_entries_archive_def
        string_defs replicate_update_same header_at_def r_extract_current_def store_copy.simps
        zlib_defs)
  show ?thesis using a b by blast
qed

text \<open>
  Where the close does what the claim says. When \<^verbatim>\<open>r_zip_get_next_entry\<close> is called with
  \<^verbatim>\<open>consumed\<close> false and \<^verbatim>\<open>header_start\<close> not \<open>-1\<close>: for a store entry the stream is moved
  to \<^verbatim>\<open>data_start\<close> plus the recorded compressed size; for a deflate entry the payload is
  inflated with the output discarded and, when the inflation reaches the end of the
  stream, the stream is moved to \<^verbatim>\<open>data_start\<close> plus the number of bytes the inflater
  consumed. The entry state is reset and the scan starts at that offset \<open>k\<close>; when a local
  header starts at \<open>k\<close>, the call returns what the header at \<open>k\<close> reads as, whatever the
  bytes of the payload were.
\<close>

lemma fread_content: "content (snd (fread f n)) = content f"
  by (simp add: fread_def Let_def)

lemma close_inflate_content:
  assumes "close_inflate z f st t = Some (f', n)"
  shows "content f' = content f"
proof -
  have "content (fst r) = content f" if "close_inflate z f st t = Some r" for r
  proof (rule close_inflate.raw_induct
      [where P = "\<lambda>z f st t r. content (fst r) = content f", OF _ that], goal_cases)
    case (1 ci z f st t r)
    show ?case
    proof (cases "close_inflate_inner z st (fst (fread f BUFFER_SIZE))")
      case None
      then show ?thesis using 1(2) by (simp add: Let_def)
    next
      case (Some a)
      obtain ret st' next_in' where a: "a = (ret, st', next_in')" by (cases a) auto
      show ?thesis
      proof (cases "ret = Z_STREAM_END")
        case True
        then show ?thesis using 1(2) Some a by (auto simp: Let_def fread_content)
      next
        case False
        then have "ci z (snd (fread f BUFFER_SIZE)) st'
            (t + (int (length (fst (fread f BUFFER_SIZE))) - int (length next_in'))) = Some r"
          using 1(2) Some a by (simp add: Let_def)
        then have "content (fst r) = content (snd (fread f BUFFER_SIZE))" by (rule 1(1))
        then show ?thesis by (simp add: fread_content)
      qed
    qed
  qed
  then show ?thesis using assms by fastforce
qed

lemma read_local_header_seek:
  assumes "0 \<le> h" and "content f = content (fp zp)"
  shows "read_local_header (zp\<lparr>fp := f, header_start := h\<rparr>) =
         read_local_header (zp\<lparr>header_start := h\<rparr>)"
proof -
  have "fseeki64_set f h = fseeki64_set (fp zp) h"
    using assms by (cases f, cases "fp zp") (simp add: fseeki64_set_def)
  then show ?thesis by (cases zp) (simp add: read_local_header_def Let_def)
qed

lemma read_entry_at_header:
  assumes "header_at (content (fp zp)) k" and "pos (fp zp) = k"
  shows "read_entry zp = Some (read_local_header (zp\<lparr>header_start := int k\<rparr>))"
proof -
  have "\<exists>f. content f = content (fp zp) \<and>
       r_zip_skip_until_next_entry zp = Some (Ret (1, zp\<lparr>fp := f, header_start := int k\<rparr>))"
    using assms by (intro skip_finds) (auto simp: header_at_def)
  then obtain f where f: "content f = content (fp zp)"
    "r_zip_skip_until_next_entry zp = Some (Ret (1, zp\<lparr>fp := f, header_start := int k\<rparr>))"
    by blast
  have "read_local_header (zp\<lparr>fp := f, header_start := int k\<rparr>) =
        read_local_header (zp\<lparr>header_start := int k\<rparr>)"
    using f(1) by (intro read_local_header_seek) simp_all
  then show ?thesis by (simp add: read_entry_def f(2))
qed

lemma closed_at_fields:
  "content (fp (closed_at zp k)) = content (fp zp)" "pos (fp (closed_at zp k)) = nat k"
  by (simp_all add: closed_at_def r_reset_entry_def)

lemma close_moves_stream_to_end_of_sized_entry:
  assumes "consumed zp = False" and "header_start zp \<noteq> - 1"
  shows "(compression zp = COMPRESSION_STORE \<and> k = data_start zp + uint (comp_size zp) \<and> 0 \<le> k \<longrightarrow>
            r_zip_get_next_entry z zp = read_entry (closed_at zp k) \<and>
            (header_at (content (fp zp)) (nat k) \<longrightarrow>
               r_zip_get_next_entry z zp =
                 Some (read_local_header ((closed_at zp k)\<lparr>header_start := k\<rparr>)))) \<and>
         (compression zp = COMPRESSION_DEFLATE \<and>
          close_inflate z (fseeki64_set (fp zp) (data_start zp)) (inflateInit2 z) 0 = Some (f, n) \<and>
          k = data_start zp + n \<and> 0 \<le> k \<longrightarrow>
            r_zip_get_next_entry z zp = read_entry (closed_at zp k) \<and>
            (header_at (content (fp zp)) (nat k) \<longrightarrow>
               r_zip_get_next_entry z zp =
                 Some (read_local_header ((closed_at zp k)\<lparr>header_start := k\<rparr>))))"
proof -
  have at_header: "read_entry (closed_at zp k) =
      Some (read_local_header ((closed_at zp k)\<lparr>header_start := k\<rparr>))"
    if "0 \<le> k" "header_at (content (fp zp)) (nat k)" for k
    using read_entry_at_header [of "closed_at zp k" "nat k"] that
    by (simp add: closed_at_fields)
  have store: "r_zip_get_next_entry z zp = read_entry (closed_at zp k)"
    if "compression zp = COMPRESSION_STORE" "k = data_start zp + uint (comp_size zp)" "0 \<le> k"
    using that assms
    by (simp add: r_zip_get_next_entry_def r_close_entry_def closed_at_def fseeki64_set_def
        r_reset_entry_def COMPRESSION_STORE_def COMPRESSION_DEFLATE_def)
  have deflate: "r_zip_get_next_entry z zp = read_entry (closed_at zp k)"
    if c: "compression zp = COMPRESSION_DEFLATE"
      "close_inflate z (fseeki64_set (fp zp) (data_start zp)) (inflateInit2 z) 0 = Some (f, n)"
      "k = data_start zp + n" "0 \<le> k"
  proof -
    have "content f = content (fseeki64_set (fp zp) (data_start zp))"
      using c(2) by (rule close_inflate_content)
    then have "content f = content (fp zp)" by (simp add: fseeki64_set_def)
    then have "fseeki64_set f k = (fp zp)\<lparr>pos := nat k\<rparr>"
      using c(4) by (cases f, cases "fp zp") (simp add: fseeki64_set_def)
    then show ?thesis
      using c assms
      by (simp add: r_zip_get_next_entry_def r_close_entry_def closed_at_def r_reset_entry_def)
  qed
  show ?thesis using at_header store deflate by metis
qed

text \<open>On a freshly opened parser, at a store entry whose size is in its header and whose
  payload looks like a header, and at a deflate entry: two calls in a row yield the first
  and then the second entry.\<close>

lemma store_entry_first:
  "\<exists>zp1. r_zip_get_next_entry stored_zlib (r_zip_open store_entry_archive) = Some (Ret (1, zp1)) \<and>
     consumed zp1 = False \<and> header_start zp1 = 0 \<and> compression zp1 = COMPRESSION_STORE \<and>
     data_start zp1 + uint (comp_size zp1) = 62 \<and> content (fp zp1) = store_entry_archive"
  by (simp add: next_entry_defs sig_defs io_defs archive_defs string_defs replicate_update_same
      store_entry_archive_def)

lemma store_entry_second:
  "content (fp zp1) = store_entry_archive \<Longrightarrow>
   \<exists>zp2. read_local_header ((closed_at zp1 62)\<lparr>header_start := 62\<rparr>) = Ret (1, zp2) \<and>
     header_start zp2 = 62 \<and> c_str (filename zp2) = bytes_of ''b''"
  by (simp add: closed_at_def next_entry_defs sig_defs io_defs archive_defs string_defs
      replicate_update_same store_entry_archive_def)

lemma deflate_entry_first:
  "\<exists>zp1 f. r_zip_get_next_entry stored_zlib (r_zip_open deflate_then_store_archive) =
       Some (Ret (1, zp1)) \<and>
     consumed zp1 = False \<and> header_start zp1 = 0 \<and> compression zp1 = COMPRESSION_DEFLATE \<and>
     data_start zp1 = 31 \<and> content (fp zp1) = deflate_then_store_archive \<and>
     close_inflate stored_zlib (fseeki64_set (fp zp1) (data_start zp1)) (inflateInit2 stored_zlib) 0 =
       Some (f, 6)"
  by (simp add: next_entry_defs sig_defs io_defs archive_defs string_defs replicate_update_same
      deflate_then_store_archive_def zlib_defs close_inflate.simps close_inflate_inner.simps)

lemma deflate_entry_second:
  "content (fp zp1) = deflate_then_store_archive \<Longrightarrow>
   \<exists>zp2. read_local_header ((closed_at zp1 37)\<lparr>header_start := 37\<rparr>) = Ret (1, zp2) \<and>
     header_start zp2 = 37 \<and> c_str (filename zp2) = bytes_of ''b''"
  by (simp add: closed_at_def next_entry_defs sig_defs io_defs archive_defs string_defs
      replicate_update_same deflate_then_store_archive_def)

lemma header_at_examples:
  "header_at store_entry_archive 62" "header_at deflate_then_store_archive 37"
  by (simp_all add: header_at_def store_entry_archive_def deflate_then_store_archive_def
      archive_defs io_defs sig_defs)

lemma two_calls_yield_second_entry:
  "(\<exists>zp1 zp2.
      r_zip_get_next_entry stored_zlib (r_zip_open store_entry_archive) = Some (Ret (1, zp1)) \<and>
      r_zip_get_next_entry stored_zlib zp1 = Some (Ret (1, zp2)) \<and>
      header_start zp2 = 62 \<and> c_str (filename zp2) = bytes_of ''b'') \<and>
   (\<exists>zp1 zp2.
      r_zip_get_next_entry stored_zlib (r_zip_open deflate_then_store_archive) =
        Some (Ret (1, zp1)) \<and>
      r_zip_get_next_entry stored_zlib zp1 = Some (Ret (1, zp2)) \<and>
      header_start zp2 = 37 \<and> c_str (filename zp2) = bytes_of ''b'')"
proof -
  obtain zp1 where a:
    "r_zip_get_next_entry stored_zlib (r_zip_open store_entry_archive) = Some (Ret (1, zp1))"
    "consumed zp1 = False" "header_start zp1 \<noteq> - 1" "compression zp1 = COMPRESSION_STORE"
    "data_start zp1 + uint (comp_size zp1) = 62" "content (fp zp1) = store_entry_archive"
    using store_entry_first by force
  have k1: "62 = data_start zp1 + uint (comp_size zp1)" "(0::int) \<le> 62"
    using a(5) by simp_all
  have h1: "header_at (content (fp zp1)) (nat 62)"
    using a(6) header_at_examples(1) by simp
  have "r_zip_get_next_entry stored_zlib zp1 =
      Some (read_local_header ((closed_at zp1 62)\<lparr>header_start := 62\<rparr>))"
    using close_moves_stream_to_end_of_sized_entry
      [OF a(2) a(3), of 62 stored_zlib] a(4) k1 h1
    by blast
  then have first: "\<exists>zp2. r_zip_get_next_entry stored_zlib zp1 = Some (Ret (1, zp2)) \<and>
      header_start zp2 = 62 \<and> c_str (filename zp2) = bytes_of ''b''"
    using store_entry_second [OF a(6)] by auto
  obtain zp3 f where b:
    "r_zip_get_next_entry stored_zlib (r_zip_open deflate_then_store_archive) =
       Some (Ret (1, zp3))"
    "consumed zp3 = False" "header_start zp3 \<noteq> - 1" "compression zp3 = COMPRESSION_DEFLATE"
    "data_start zp3 = 31" "content (fp zp3) = deflate_then_store_archive"
    "close_inflate stored_zlib (fseeki64_set (fp zp3) (data_start zp3)) (inflateInit2 stored_zlib) 0 =
       Some (f, 6)"
    using deflate_entry_first by force
  have k2: "37 = data_start zp3 + 6" "(0::int) \<le> 37"
    using b(5) by simp_all
  have h2: "header_at (content (fp zp3)) (nat 37)"
    using b(6) header_at_examples(2) by simp
  have "r_zip_get_next_entry stored_zlib zp3 =
      Some (read_local_header ((closed_at zp3 37)\<lparr>header_start := 37\<rparr>))"
    using close_moves_stream_to_end_of_sized_entry
      [OF b(2) b(3), of 37 stored_zlib f 6] b(4) b(7) k2 h2
    by blast
  then have second: "\<exists>zp2. r_zip_get_next_entry stored_zlib zp3 = Some (Ret (1, zp2)) \<and>
      header_start zp2 = 37 \<and> c_str (filename zp2) = bytes_of ''b''"
    using deflate_entry_second [OF b(6)] by auto
  show ?thesis using a(1) first b(1) second by blast
qed

end
